theory Spec2Isabelle
  imports Complex_Main "HOL-Library.AList"
begin

section \<open>Python helpers\<close>

text \<open>Python's \<open>str\<close> on an \<open>int\<close>: decimal digits, most significant first, with a
  leading minus sign for negative numbers. It is what \<open>f"goal_{n}"\<close> and \<open>str(map_id)\<close>
  produce.\<close>

fun string_of_nat :: "nat \<Rightarrow> string" where
  "string_of_nat n =
     (if n < 10 then [char_of (48 + n)]
      else string_of_nat (n div 10) @ [char_of (48 + n mod 10)])"

definition str_int :: "int \<Rightarrow> string" where
  "str_int i = (if i < 0 then CHR ''-'' # string_of_nat (nat (- i)) else string_of_nat (nat i))"

section \<open>Navigator (src/agent/core/navigator.py)\<close>

datatype direction = UP | DOWN | LEFT | RIGHT

text \<open>The landmark registry \<open>warp_data.json\<close> is external static data: a dictionary keyed
  by the map id written as a string; each entry may carry a \<open>name\<close> and a \<open>landmarks\<close>
  dictionary from landmark key to \<open>{x, y, label}\<close>. Dictionaries are association lists
  read with \<open>map_of\<close>.\<close>

record landmark =
  lm_x :: int
  lm_y :: int
  lm_label :: "string option"

record map_data =
  md_name :: "string option"
  md_landmarks :: "(string \<times> landmark) list option"

record navigator =
  warp_data :: "(string \<times> map_data) list"
  target :: "(int \<times> int) option"
  target_label :: string
  target_map :: int
  active :: bool
  prev_x :: int
  prev_y :: int
  stuck_count :: int
  stuck_dir_idx :: int
  detour_dir :: "direction option"
  detour_ticks :: int
  total_stuck :: int

text \<open>\<open>Navigator.__init__\<close>, for a registry already loaded.\<close>

definition navigator_init :: "(string \<times> map_data) list \<Rightarrow> navigator" where
  "navigator_init wd =
     \<lparr>warp_data = wd, target = None, target_label = [], target_map = - 1, active = False,
      prev_x = - 1, prev_y = - 1, stuck_count = 0, stuck_dir_idx = 0,
      detour_dir = None, detour_ticks = 0, total_stuck = 0\<rparr>"

text \<open>A Python dictionary is falsy exactly when it has no key at all.\<close>

definition map_data_falsy :: "map_data \<Rightarrow> bool" where
  "map_data_falsy md \<longleftrightarrow> md_name md = None \<and> md_landmarks md = None"

definition landmarks_of :: "map_data \<Rightarrow> (string \<times> landmark) list" where
  "landmarks_of md = (case md_landmarks md of None \<Rightarrow> [] | Some ls \<Rightarrow> ls)"

definition set_target :: "navigator \<Rightarrow> int \<Rightarrow> string \<Rightarrow> bool \<times> navigator" where
  "set_target nav map_id landmark_key =
     (case map_of (warp_data nav) (str_int map_id) of
        None \<Rightarrow> (False, nav)
      | Some md \<Rightarrow>
          if map_data_falsy md then (False, nav)
          else (case map_of (landmarks_of md) landmark_key of
                  None \<Rightarrow> (False, nav)
                | Some lm \<Rightarrow>
                    (True,
                     nav\<lparr>target := Some (lm_x lm, lm_y lm),
                         target_label := (case lm_label lm of None \<Rightarrow> landmark_key | Some l \<Rightarrow> l),
                         target_map := map_id,
                         active := True,
                         stuck_count := 0,
                         prev_x := - 1,
                         prev_y := - 1,
                         stuck_dir_idx := 0,
                         detour_dir := None,
                         detour_ticks := 0,
                         total_stuck := 0\<rparr>)))"

definition cancel :: "navigator \<Rightarrow> navigator" where
  "cancel nav =
     nav\<lparr>active := False, target := None, target_label := [], target_map := - 1,
         detour_dir := None, detour_ticks := 0, total_stuck := 0\<rparr>"

text \<open>\<open>_start_detour\<close>: the options list has two entries, indexed by
  \<open>_stuck_dir_idx % 2\<close>.\<close>

definition start_detour :: "navigator \<Rightarrow> int \<Rightarrow> int \<Rightarrow> direction option \<times> navigator" where
  "start_detour nav dx dy =
     (let detour_len = min (3 + total_stuck nav * 2) 12;
          options = (if \<bar>dx\<bar> \<ge> \<bar>dy\<bar> then [UP, DOWN] else [LEFT, RIGHT]);
          d = options ! nat (stuck_dir_idx nav mod 2);
          nav' = nav\<lparr>detour_dir := Some d, detour_ticks := detour_len, stuck_count := 0\<rparr>
      in (detour_dir nav', nav'))"

text \<open>Normal pathfinding: close the larger gap first.\<close>

definition greedy_direction :: "int \<Rightarrow> int \<Rightarrow> direction" where
  "greedy_direction dx dy =
     (if \<bar>dx\<bar> > \<bar>dy\<bar> then (if dx > 0 then RIGHT else LEFT)
      else if \<bar>dy\<bar> > 0 then (if dy > 0 then DOWN else UP)
      else (if dx > 0 then RIGHT else LEFT))"

text \<open>The tail of \<open>get_next_direction\<close> from the stuck detection on (source lines 119-147).\<close>

definition stuck_detection :: "navigator \<Rightarrow> int \<Rightarrow> int \<Rightarrow> int \<Rightarrow> int \<Rightarrow> direction option \<times> navigator" where
  "stuck_detection nav player_x player_y dx dy =
     (let nav1 = (if player_x = prev_x nav \<and> player_y = prev_y nav
                  then nav\<lparr>stuck_count := stuck_count nav + 1\<rparr>
                  else nav\<lparr>stuck_count := 0\<rparr>);
          nav2 = nav1\<lparr>prev_x := player_x, prev_y := player_y\<rparr>
      in if stuck_count nav2 \<ge> 3 then start_detour (nav2\<lparr>total_stuck := total_stuck nav2 + 1\<rparr>) dx dy
         else if total_stuck nav2 \<ge> 15 then (None, cancel nav2)
         else (Some (greedy_direction dx dy), nav2))"

definition get_next_direction :: "navigator \<Rightarrow> int \<Rightarrow> int \<Rightarrow> int \<Rightarrow> direction option \<times> navigator" where
  "get_next_direction nav player_x player_y current_map =
     (case target nav of
        None \<Rightarrow> (None, nav)
      | Some (tx, ty) \<Rightarrow>
          if \<not> active nav then (None, nav)
          else if current_map \<noteq> target_map nav then (None, cancel nav)
          else
            let dx = tx - player_x; dy = ty - player_y in
            if \<bar>dx\<bar> \<le> 1 \<and> \<bar>dy\<bar> \<le> 1 then (None, nav\<lparr>active := False, total_stuck := 0\<rparr>)
            else if detour_ticks nav > 0 then
              (if player_x = prev_x nav \<and> player_y = prev_y nav then
                 start_detour (nav\<lparr>detour_ticks := 0, stuck_dir_idx := stuck_dir_idx nav + 1,
                                   stuck_count := 3, prev_x := player_x, prev_y := player_y\<rparr>) dx dy
               else
                 let nav1 = nav\<lparr>detour_ticks := detour_ticks nav - 1,
                                prev_x := player_x, prev_y := player_y\<rparr>
                 in if detour_ticks nav1 > 0 then (detour_dir nav1, nav1)
                    else stuck_detection nav1 player_x player_y dx dy)
            else stuck_detection nav player_x player_y dx dy)"

text \<open>Sequences of calls on one navigator, as the game loop issues them.\<close>

datatype nav_call = SetTarget int string | GetNextDirection int int int | Cancel

fun nav_exec :: "nav_call \<Rightarrow> navigator \<Rightarrow> navigator" where
  "nav_exec (SetTarget m k) nav = snd (set_target nav m k)"
| "nav_exec (GetNextDirection x y m) nav = snd (get_next_direction nav x y m)"
| "nav_exec Cancel nav = cancel nav"

definition nav_run :: "nav_call list \<Rightarrow> navigator \<Rightarrow> navigator" where
  "nav_run calls nav = fold nav_exec calls nav"

subsection \<open>Vocabulary of the navigator's specification\<close>

definition chebyshev :: "int \<times> int \<Rightarrow> int \<times> int \<Rightarrow> int" where
  "chebyshev p q = max \<bar>fst q - fst p\<bar> \<bar>snd q - snd p\<bar>"

text \<open>Walking: active, on the target's map, and more than one tile away.\<close>

definition en_route :: "navigator \<Rightarrow> int \<Rightarrow> int \<Rightarrow> int \<Rightarrow> bool" where
  "en_route nav player_x player_y current_map \<longleftrightarrow>
     active nav \<and> current_map = target_map nav \<and>
     (case target nav of None \<Rightarrow> False | Some t \<Rightarrow> chebyshev (player_x, player_y) t > 1)"

definition unmoved :: "navigator \<Rightarrow> int \<Rightarrow> int \<Rightarrow> bool" where
  "unmoved nav player_x player_y \<longleftrightarrow> player_x = prev_x nav \<and> player_y = prev_y nav"

text \<open>The give-up branch (source lines 132-139) is reached when no detour tick remains after
  this call's bookkeeping, the no-movement counter stays below 3 and the cumulative stuck
  counter has reached 15. A detour that ends on this call leaves the position just recorded,
  so the stuck detection counts it as unmoved.\<close>

definition gives_up :: "navigator \<Rightarrow> int \<Rightarrow> int \<Rightarrow> bool" where
  "gives_up nav player_x player_y \<longleftrightarrow>
     total_stuck nav \<ge> 15 \<and>
     (if detour_ticks nav > 0
      then detour_ticks nav = 1 \<and> \<not> unmoved nav player_x player_y \<and> stuck_count nav + 1 < 3
      else (unmoved nav player_x player_y \<longrightarrow> stuck_count nav + 1 < 3))"

text \<open>The two places where \<open>get_next_direction\<close> calls \<open>_start_detour\<close>: a detour found
  blocked (line 109), and three ticks without movement (line 130).\<close>

definition starts_detour :: "navigator \<Rightarrow> int \<Rightarrow> int \<Rightarrow> bool" where
  "starts_detour nav player_x player_y \<longleftrightarrow>
     (if unmoved nav player_x player_y
      then detour_ticks nav > 0 \<or> stuck_count nav + 1 \<ge> 3
      else detour_ticks nav = 1 \<and> stuck_count nav + 1 \<ge> 3)"

text \<open>What holds of the navigator between calls.\<close>

definition nav_inv :: "navigator \<Rightarrow> bool" where
  "nav_inv nav \<longleftrightarrow>
     (active nav \<longrightarrow> target nav \<noteq> None) \<and> (detour_ticks nav > 0 \<longrightarrow> detour_dir nav \<noteq> None)"

text \<open>Source lines 99-147 of \<open>get_next_direction\<close>, once the target is known to be far.\<close>

definition detour_phase :: "navigator \<Rightarrow> int \<Rightarrow> int \<Rightarrow> int \<Rightarrow> int \<Rightarrow> direction option \<times> navigator" where
  "detour_phase nav x y dx dy =
      (if detour_ticks nav > 0 then
         (if unmoved nav x y then
            start_detour (nav\<lparr>detour_ticks := 0, stuck_dir_idx := stuck_dir_idx nav + 1,
                              stuck_count := 3, prev_x := x, prev_y := y\<rparr>) dx dy
          else if detour_ticks nav - 1 > 0 then
            (detour_dir nav, nav\<lparr>detour_ticks := detour_ticks nav - 1, prev_x := x, prev_y := y\<rparr>)
          else stuck_detection (nav\<lparr>detour_ticks := detour_ticks nav - 1, prev_x := x, prev_y := y\<rparr>)
                 x y dx dy)
       else stuck_detection nav x y dx dy)"

subsection \<open>A walk that ends in the give-up branch\<close>

text \<open>The player stands still until a detour starts, moves on every tick of the detour, and
  stands still again: fifteen times.\<close>

fun shuttle :: "nat \<Rightarrow> int \<Rightarrow> nav_call list" where
  "shuttle 0 y = []"
| "shuttle (Suc n) y = GetNextDirection 0 (1 - y) 1 # shuttle n (1 - y)"

fun stuck_rounds :: "nat list \<Rightarrow> int \<Rightarrow> nav_call list" where
  "stuck_rounds [] y = [GetNextDirection 0 y 1, GetNextDirection 0 y 1]"
| "stuck_rounds (l # ls) y =
     GetNextDirection 0 y 1 # GetNextDirection 0 y 1 # shuttle l y
       @ stuck_rounds ls (if even l then y else 1 - y)"

definition c2_registry :: "(string \<times> map_data) list" where
  "c2_registry = [(''1'', \<lparr>md_name = Some ''PALLET TOWN'',
      md_landmarks = Some [(''lab'', \<lparr>lm_x = 20, lm_y = 0, lm_label = None\<rparr>)]\<rparr>)]"

definition c2_calls :: "nav_call list" where
  "c2_calls = SetTarget 1 ''lab'' # GetNextDirection 0 0 1 # GetNextDirection 0 0 1
     # stuck_rounds [5, 7, 9, 11, 12, 12, 12, 12, 12, 12, 12, 12, 12, 12] 0 @ shuttle 11 0"

definition c2_state :: navigator where
  "c2_state = \<lparr>warp_data = c2_registry, target = Some (20, 0), target_label = ''lab'', target_map = 1,
     active = True, prev_x = 0, prev_y = 1, stuck_count = 0, stuck_dir_idx = 0,
     detour_dir = Some UP, detour_ticks = 1, total_stuck = 15\<rparr>"

definition c2_walking :: navigator where
  "c2_walking = snd (set_target (navigator_init c2_registry) 1 ''lab'')"

definition c6_stuck :: navigator where
  "c6_stuck = \<lparr>warp_data = c2_registry, target = Some (20, 0), target_label = ''lab'', target_map = 1,
     active = True, prev_x = 0, prev_y = 0, stuck_count = 2, stuck_dir_idx = 0,
     detour_dir = None, detour_ticks = 0, total_stuck = 0\<rparr>"

section \<open>Battle manager (src/agent/core/battle_manager.py)\<close>

text \<open>The two static registries of the module: species name to type names, move name to
  type name.\<close>

definition SPECIES_TYPES :: "(string \<times> string list) list" where
  "SPECIES_TYPES =
    [(''Bulbasaur'', [''Grass'', ''Poison'']), (''Ivysaur'', [''Grass'', ''Poison'']),
     (''Venusaur'', [''Grass'', ''Poison'']), (''Charmander'', [''Fire'']),
     (''Charmeleon'', [''Fire'']), (''Charizard'', [''Fire'', ''Flying'']),
     (''Squirtle'', [''Water'']), (''Wartortle'', [''Water'']), (''Blastoise'', [''Water'']),
     (''Caterpie'', [''Bug'']), (''Metapod'', [''Bug'']),
     (''Butterfree'', [''Bug'', ''Flying'']), (''Weedle'', [''Bug'', ''Poison'']),
     (''Kakuna'', [''Bug'', ''Poison'']), (''Beedrill'', [''Bug'', ''Poison'']),
     (''Pidgey'', [''Normal'', ''Flying'']), (''Pidgeotto'', [''Normal'', ''Flying'']),
     (''Pidgeot'', [''Normal'', ''Flying'']), (''Rattata'', [''Normal'']),
     (''Raticate'', [''Normal'']), (''Spearow'', [''Normal'', ''Flying'']),
     (''Fearow'', [''Normal'', ''Flying'']), (''Ekans'', [''Poison'']),
     (''Arbok'', [''Poison'']), (''Pikachu'', [''Electric'']), (''Raichu'', [''Electric'']),
     (''Sandshrew'', [''Ground'']), (''Sandslash'', [''Ground'']), (''Nidoran-F'', [''Poison'']),
     (''Nidorina'', [''Poison'']), (''Nidoqueen'', [''Poison'', ''Ground'']),
     (''Nidoran-M'', [''Poison'']), (''Nidorino'', [''Poison'']),
     (''Nidoking'', [''Poison'', ''Ground'']), (''Clefairy'', [''Normal'']),
     (''Clefable'', [''Normal'']), (''Vulpix'', [''Fire'']), (''Ninetales'', [''Fire'']),
     (''Jigglypuff'', [''Normal'']), (''Wigglytuff'', [''Normal'']),
     (''Zubat'', [''Poison'', ''Flying'']), (''Golbat'', [''Poison'', ''Flying'']),
     (''Oddish'', [''Grass'', ''Poison'']), (''Gloom'', [''Grass'', ''Poison'']),
     (''Vileplume'', [''Grass'', ''Poison'']), (''Paras'', [''Bug'', ''Grass'']),
     (''Parasect'', [''Bug'', ''Grass'']), (''Venonat'', [''Bug'', ''Poison'']),
     (''Venomoth'', [''Bug'', ''Poison'']), (''Diglett'', [''Ground'']),
     (''Dugtrio'', [''Ground'']), (''Meowth'', [''Normal'']), (''Persian'', [''Normal'']),
     (''Psyduck'', [''Water'']), (''Golduck'', [''Water'']), (''Mankey'', [''Fighting'']),
     (''Primeape'', [''Fighting'']), (''Growlithe'', [''Fire'']), (''Arcanine'', [''Fire'']),
     (''Poliwag'', [''Water'']), (''Poliwhirl'', [''Water'']),
     (''Poliwrath'', [''Water'', ''Fighting'']), (''Abra'', [''Psychic'']),
     (''Kadabra'', [''Psychic'']), (''Alakazam'', [''Psychic'']), (''Machop'', [''Fighting'']),
     (''Machoke'', [''Fighting'']), (''Machamp'', [''Fighting'']),
     (''Bellsprout'', [''Grass'', ''Poison'']), (''Weepinbell'', [''Grass'', ''Poison'']),
     (''Victreebel'', [''Grass'', ''Poison'']), (''Tentacool'', [''Water'', ''Poison'']),
     (''Tentacruel'', [''Water'', ''Poison'']), (''Geodude'', [''Rock'', ''Ground'']),
     (''Graveler'', [''Rock'', ''Ground'']), (''Golem'', [''Rock'', ''Ground'']),
     (''Ponyta'', [''Fire'']), (''Rapidash'', [''Fire'']),
     (''Slowpoke'', [''Water'', ''Psychic'']), (''Slowbro'', [''Water'', ''Psychic'']),
     (''Magnemite'', [''Electric'', ''Steel'']), (''Magneton'', [''Electric'', ''Steel'']),
     (''Farfetch'' @ [CHR 0x27] @ ''d'', [''Normal'', ''Flying'']),
     (''Doduo'', [''Normal'', ''Flying'']), (''Dodrio'', [''Normal'', ''Flying'']),
     (''Seel'', [''Water'']), (''Dewgong'', [''Water'', ''Ice'']), (''Grimer'', [''Poison'']),
     (''Muk'', [''Poison'']), (''Shellder'', [''Water'']), (''Cloyster'', [''Water'', ''Ice'']),
     (''Gastly'', [''Ghost'', ''Poison'']), (''Haunter'', [''Ghost'', ''Poison'']),
     (''Gengar'', [''Ghost'', ''Poison'']), (''Onix'', [''Rock'', ''Ground'']),
     (''Drowzee'', [''Psychic'']), (''Hypno'', [''Psychic'']), (''Krabby'', [''Water'']),
     (''Kingler'', [''Water'']), (''Voltorb'', [''Electric'']), (''Electrode'', [''Electric'']),
     (''Exeggcute'', [''Grass'', ''Psychic'']), (''Exeggutor'', [''Grass'', ''Psychic'']),
     (''Cubone'', [''Ground'']), (''Marowak'', [''Ground'']), (''Hitmonlee'', [''Fighting'']),
     (''Hitmonchan'', [''Fighting'']), (''Lickitung'', [''Normal'']),
     (''Koffing'', [''Poison'']), (''Weezing'', [''Poison'']),
     (''Rhyhorn'', [''Ground'', ''Rock'']), (''Rhydon'', [''Ground'', ''Rock'']),
     (''Chansey'', [''Normal'']), (''Tangela'', [''Grass'']), (''Kangaskhan'', [''Normal'']),
     (''Horsea'', [''Water'']), (''Seadra'', [''Water'']), (''Goldeen'', [''Water'']),
     (''Seaking'', [''Water'']), (''Staryu'', [''Water'']),
     (''Starmie'', [''Water'', ''Psychic'']), (''Mr. Mime'', [''Psychic'']),
     (''Scyther'', [''Bug'', ''Flying'']), (''Jynx'', [''Ice'', ''Psychic'']),
     (''Electabuzz'', [''Electric'']), (''Magmar'', [''Fire'']), (''Pinsir'', [''Bug'']),
     (''Tauros'', [''Normal'']), (''Magikarp'', [''Water'']),
     (''Gyarados'', [''Water'', ''Flying'']), (''Lapras'', [''Water'', ''Ice'']),
     (''Ditto'', [''Normal'']), (''Eevee'', [''Normal'']), (''Vaporeon'', [''Water'']),
     (''Jolteon'', [''Electric'']), (''Flareon'', [''Fire'']), (''Porygon'', [''Normal'']),
     (''Omanyte'', [''Rock'', ''Water'']), (''Omastar'', [''Rock'', ''Water'']),
     (''Kabuto'', [''Rock'', ''Water'']), (''Kabutops'', [''Rock'', ''Water'']),
     (''Aerodactyl'', [''Rock'', ''Flying'']), (''Snorlax'', [''Normal'']),
     (''Articuno'', [''Ice'', ''Flying'']), (''Zapdos'', [''Electric'', ''Flying'']),
     (''Moltres'', [''Fire'', ''Flying'']), (''Dratini'', [''Dragon'']),
     (''Dragonair'', [''Dragon'']), (''Dragonite'', [''Dragon'', ''Flying'']),
     (''Mewtwo'', [''Psychic'']), (''Mew'', [''Psychic''])]"

definition MOVE_TYPES :: "(string \<times> string) list" where
  "MOVE_TYPES =
    [(''Tackle'', ''Normal''), (''Scratch'', ''Normal''), (''Pound'', ''Normal''),
     (''Slam'', ''Normal''), (''Body Slam'', ''Normal''), (''Take Down'', ''Normal''),
     (''Double-Edge'', ''Normal''), (''Hyper Beam'', ''Normal''), (''Quick Attack'', ''Normal''),
     (''Slash'', ''Normal''), (''Headbutt'', ''Normal''), (''Strength'', ''Normal''),
     (''Cut'', ''Normal''), (''Swift'', ''Normal''), (''Ember'', ''Fire''),
     (''Flamethrower'', ''Fire''), (''Fire Blast'', ''Fire''), (''Fire Punch'', ''Fire''),
     (''Fire Spin'', ''Fire''), (''Flame Wheel'', ''Fire''), (''Water Gun'', ''Water''),
     (''Surf'', ''Water''), (''Hydro Pump'', ''Water''), (''Bubble'', ''Water''),
     (''Bubble Beam'', ''Water''), (''Waterfall'', ''Water''), (''Water Pulse'', ''Water''),
     (''Thunder Shock'', ''Electric''), (''Thunderbolt'', ''Electric''),
     (''Thunder'', ''Electric''), (''Thunder Punch'', ''Electric''),
     (''Thunder Wave'', ''Electric''), (''Spark'', ''Electric''), (''Vine Whip'', ''Grass''),
     (''Razor Leaf'', ''Grass''), (''Solar Beam'', ''Grass''), (''Mega Drain'', ''Grass''),
     (''Giga Drain'', ''Grass''), (''Absorb'', ''Grass''), (''Leech Seed'', ''Grass''),
     (''Bullet Seed'', ''Grass''), (''Leaf Blade'', ''Grass''), (''Ice Beam'', ''Ice''),
     (''Blizzard'', ''Ice''), (''Ice Punch'', ''Ice''), (''Aurora Beam'', ''Ice''),
     (''Powder Snow'', ''Ice''), (''Icy Wind'', ''Ice''), (''Karate Chop'', ''Fighting''),
     (''Low Kick'', ''Fighting''), (''Submission'', ''Fighting''),
     (''Seismic Toss'', ''Fighting''), (''Cross Chop'', ''Fighting''),
     (''Brick Break'', ''Fighting''), (''Mach Punch'', ''Fighting''),
     (''Dynamic Punch'', ''Fighting''), (''Poison Sting'', ''Poison''), (''Sludge'', ''Poison''),
     (''Sludge Bomb'', ''Poison''), (''Toxic'', ''Poison''), (''Acid'', ''Poison''),
     (''Poison Powder'', ''Poison''), (''Earthquake'', ''Ground''), (''Dig'', ''Ground''),
     (''Mud-Slap'', ''Ground''), (''Bone Club'', ''Ground''), (''Bonemerang'', ''Ground''),
     (''Mud Shot'', ''Ground''), (''Gust'', ''Flying''), (''Wing Attack'', ''Flying''),
     (''Fly'', ''Flying''), (''Drill Peck'', ''Flying''), (''Peck'', ''Flying''),
     (''Aerial Ace'', ''Flying''), (''Sky Attack'', ''Flying''), (''Confusion'', ''Psychic''),
     (''Psychic'', ''Psychic''), (''Psybeam'', ''Psychic''), (''Hypnosis'', ''Psychic''),
     (''Dream Eater'', ''Psychic''), (''Extrasensory'', ''Psychic''), (''Leech Life'', ''Bug''),
     (''Pin Missile'', ''Bug''), (''Twineedle'', ''Bug''), (''Signal Beam'', ''Bug''),
     (''Silver Wind'', ''Bug''), (''Rock Throw'', ''Rock''), (''Rock Slide'', ''Rock''),
     (''Rock Tomb'', ''Rock''), (''Ancient Power'', ''Rock''), (''Rock Blast'', ''Rock''),
     (''Lick'', ''Ghost''), (''Shadow Ball'', ''Ghost''), (''Night Shade'', ''Ghost''),
     (''Shadow Punch'', ''Ghost''), (''Astonish'', ''Ghost''), (''Dragon Rage'', ''Dragon''),
     (''Dragon Breath'', ''Dragon''), (''Dragon Claw'', ''Dragon''), (''Outrage'', ''Dragon''),
     (''Twister'', ''Dragon''), (''Bite'', ''Dark''), (''Crunch'', ''Dark''),
     (''Pursuit'', ''Dark''), (''Thief'', ''Dark''), (''Faint Attack'', ''Dark''),
     (''Steel Wing'', ''Steel''), (''Iron Tail'', ''Steel''), (''Metal Claw'', ''Steel''),
     (''Meteor Mash'', ''Steel''), (''Iron Defense'', ''Steel'')]"

text \<open>A party member is a dictionary read with \<open>.get\<close> and a default, so each key may be
  missing. A world snapshot carries the battle code, the party and the money.\<close>

record pokemon =
  species_name :: "string option"
  hp_current :: "int option"
  hp_max :: "int option"
  moves :: "string list option"

record game_state =
  gs_in_battle :: int
  party :: "pokemon list"
  money :: int

text \<open>The type chart is a dictionary from attacking type to a dictionary from defending type
  to a factor. The factors are numbers of \<open>type_chart.json\<close>; the operations below only
  multiply and compare them, so their type is left open.\<close>

record 'a battle_manager =
  in_battle :: bool
  battle_type :: int
  battle_turns :: int
  battles_won :: int
  battles_fled :: int
  whiteouts :: int
  prev_money :: int
  prev_party_hp :: "(int \<times> int) list"
  type_chart :: "(string \<times> (string \<times> 'a) list) list"

definition battle_manager_init :: "(string \<times> (string \<times> 'a) list) list \<Rightarrow> 'a battle_manager" where
  "battle_manager_init chart =
     \<lparr>in_battle = False, battle_type = 0, battle_turns = 0, battles_won = 0, battles_fled = 0,
      whiteouts = 0, prev_money = 0, prev_party_hp = [], type_chart = chart\<rparr>"

definition get_hp_current :: "pokemon \<Rightarrow> int" where
  "get_hp_current p = (case hp_current p of None \<Rightarrow> 0 | Some h \<Rightarrow> h)"

definition get_hp_max :: "pokemon \<Rightarrow> int" where
  "get_hp_max p = (case hp_max p of None \<Rightarrow> 0 | Some h \<Rightarrow> h)"

text \<open>\<open>all(...) if game_state.party else False\<close>\<close>

definition all_fainted :: "game_state \<Rightarrow> bool" where
  "all_fainted gs \<longleftrightarrow> (if party gs \<noteq> [] then list_all (\<lambda>p. get_hp_current p = 0) (party gs) else False)"

text \<open>\<open>update\<close> returns the events dictionary and the updated tracker.\<close>

definition update :: "'a battle_manager \<Rightarrow> game_state \<Rightarrow> (string \<times> string) list \<times> 'a battle_manager" where
  "update bm gs =
     (let new_battle = gs_in_battle gs in
      if \<not> in_battle bm \<and> new_battle > 0 then
        ([(''battle_start'', if new_battle = 1 then ''wild'' else ''trainer'')],
         bm\<lparr>in_battle := True, battle_type := new_battle, battle_turns := 0,
            prev_party_hp := map (\<lambda>p. (get_hp_current p, get_hp_max p)) (party gs),
            prev_money := money gs\<rparr>)
      else if in_battle bm \<and> new_battle = 0 then
        (if all_fainted gs \<or> money gs < prev_money bm then
           ([(''battle_end'', ''whiteout'')],
            bm\<lparr>in_battle := False, whiteouts := whiteouts bm + 1, battle_type := 0\<rparr>)
         else
           ([(''battle_end'', ''won'')],
            bm\<lparr>in_battle := False, battles_won := battles_won bm + 1, battle_type := 0\<rparr>))
      else if in_battle bm then ([], bm\<lparr>battle_turns := battle_turns bm + 1\<rparr>)
      else ([], bm))"

text \<open>\<open>get_type_effectiveness\<close>: the attack type may be \<open>None\<close> or empty, both falsy.\<close>

definition get_type_effectiveness ::
  "('a::{one,times}) battle_manager \<Rightarrow> string option \<Rightarrow> string list \<Rightarrow> 'a" where
  "get_type_effectiveness bm attack_type defend_types =
     (if type_chart bm = [] \<or> attack_type = None \<or> attack_type = Some [] then 1
      else
        let matchups = (case map_of (type_chart bm) (the attack_type) of None \<Rightarrow> [] | Some row \<Rightarrow> row)
        in foldl (\<lambda>multiplier dtype.
                    case map_of matchups dtype of
                      None \<Rightarrow> multiplier
                    | Some factor \<Rightarrow> multiplier * factor)
             1 defend_types)"

text \<open>One pass of the loop of \<open>recommend_move\<close> over a move slot.\<close>

definition consider_move ::
  "('a::{one,times,ord}) battle_manager \<Rightarrow> string list \<Rightarrow> string option \<times> 'a \<Rightarrow> string
     \<Rightarrow> string option \<times> 'a" where
  "consider_move bm enemy_types best move_name =
     (if move_name = [] \<or> move_name = ''---'' then best
      else case map_of MOVE_TYPES move_name of
        None \<Rightarrow> best
      | Some move_type \<Rightarrow>
          if move_type = [] then best
          else
            let effectiveness = get_type_effectiveness bm (Some move_type) enemy_types
            in if effectiveness > snd best then (Some move_name, effectiveness) else best)"

text \<open>\<open>recommend_move\<close>. The suggestion is the text
  \<open>f"Use {best_move} (super effective x{best_effectiveness}!)"\<close>; how Python prints the
  factor is the parameter \<open>fmt\<close>.\<close>

definition suggestion :: "('a \<Rightarrow> string) \<Rightarrow> string \<Rightarrow> 'a \<Rightarrow> string" where
  "suggestion fmt best_move best_effectiveness =
     ''Use '' @ best_move @ '' (super effective x'' @ fmt best_effectiveness @ ''!)''"

definition recommend_move ::
  "('a \<Rightarrow> string) \<Rightarrow> ('a::{zero,one,times,ord}) battle_manager \<Rightarrow> pokemon \<Rightarrow> string
     \<Rightarrow> string option" where
  "recommend_move fmt bm party_pokemon enemy_name =
     (let enemy_types = (case map_of SPECIES_TYPES enemy_name of None \<Rightarrow> [] | Some ts \<Rightarrow> ts) in
      if enemy_types = [] then None
      else
        let move_list = (case moves party_pokemon of None \<Rightarrow> [] | Some ms \<Rightarrow> ms);
            best = foldl (consider_move bm enemy_types) (None, 0) move_list
        in case fst best of
             None \<Rightarrow> None
           | Some best_move \<Rightarrow>
               if best_move \<noteq> [] \<and> snd best > 1
               then Some (suggestion fmt best_move (snd best)) else None)"

subsection \<open>Vocabulary of the battle tracker's specification\<close>

text \<open>The non-empty move slots of a party member, and the effectiveness of a move against
  an opponent species: that of its registered type against the opponent's registered types
  (a move or a species missing from its registry is neutral).\<close>

definition move_slots :: "pokemon \<Rightarrow> string list" where
  "move_slots p = filter (\<lambda>m. m \<noteq> [] \<and> m \<noteq> ''---'') (case moves p of None \<Rightarrow> [] | Some ms \<Rightarrow> ms)"

definition move_effectiveness :: "('a::{one,times}) battle_manager \<Rightarrow> string \<Rightarrow> string \<Rightarrow> 'a" where
  "move_effectiveness bm enemy_name m =
     get_type_effectiveness bm (map_of MOVE_TYPES m)
       (case map_of SPECIES_TYPES enemy_name of None \<Rightarrow> [] | Some ts \<Rightarrow> ts)"

text \<open>The row of the chart for an attacking type, empty when the type has none.\<close>

definition chart_row :: "'a battle_manager \<Rightarrow> string \<Rightarrow> (string \<times> 'a) list" where
  "chart_row bm attack_type = (case map_of (type_chart bm) attack_type of None \<Rightarrow> [] | Some row \<Rightarrow> row)"

definition water_chart :: "(string \<times> (string \<times> rat) list) list" where
  "water_chart = [(''Water'', [(''Fire'', 2), (''Flying'', 1), (''Grass'', 1 / 2)])]"

definition trainer_battle :: "rat battle_manager" where
  "trainer_battle =
     \<lparr>in_battle = True, battle_type = 2, battle_turns = 4, battles_won = 0, battles_fled = 0,
      whiteouts = 0, prev_money = 3000, prev_party_hp = [(20, 20)], type_chart = water_chart\<rparr>"

definition fainted_snapshot :: game_state where
  "fainted_snapshot = \<lparr>gs_in_battle = 0,
     party = [\<lparr>species_name = Some ''Squirtle'', hp_current = Some 0, hp_max = Some 20,
               moves = Some [''Tackle'', ''Bubble'']\<rparr>], money = 3000\<rparr>"

definition survived_snapshot :: game_state where
  "survived_snapshot = \<lparr>gs_in_battle = 0,
     party = [\<lparr>species_name = Some ''Squirtle'', hp_current = Some 5, hp_max = Some 20,
               moves = Some [''Tackle'', ''Bubble'']\<rparr>], money = 3000\<rparr>"

definition trainer_snapshot :: game_state where
  "trainer_snapshot = \<lparr>gs_in_battle = 2,
     party = [\<lparr>species_name = Some ''Squirtle'', hp_current = Some 20, hp_max = Some 20,
               moves = Some [''Tackle'', ''Bubble'']\<rparr>], money = 3000\<rparr>"

definition empty_party_snapshot :: game_state where
  "empty_party_snapshot = \<lparr>gs_in_battle = 0, party = [], money = 3000\<rparr>"

text \<open>What one pass of the loop sees of a move: nothing when the slot is skipped, else the
  effectiveness of the move's type against the opponent's types.\<close>

definition move_score :: "('a::{one,times}) battle_manager \<Rightarrow> string list \<Rightarrow> string \<Rightarrow> 'a option" where
  "move_score bm enemy_types m =
     (if m = [] \<or> m = ''---'' then None
      else case map_of MOVE_TYPES m of
        None \<Rightarrow> None
      | Some t \<Rightarrow> if t = [] then None else Some (get_type_effectiveness bm (Some t) enemy_types))"

definition squirtle :: pokemon where
  "squirtle = \<lparr>species_name = Some ''Squirtle'', hp_current = Some 20, hp_max = Some 20,
     moves = Some [''Tackle'', ''---'', ''Surf'', ''Bubble'']\<rparr>"

section \<open>Goal planner (src/agent/planning/goal_planner.py)\<close>

datatype GoalStatus = PENDING | ACTIVE | IN_PROGRESS | COMPLETED | FAILED | BLOCKED

record goal =
  goal_id :: string
  name :: string
  description :: string
  status :: GoalStatus
  priority :: int
  parent_id :: "string option"
  children_ids :: "string list"
  prerequisites :: "string list"
  "notes" :: "string list"
  attempts :: int
  max_attempts :: int
  created_at :: real
  completed_at :: "real option"

text \<open>The planner: the dictionary of goals in insertion order (the order \<open>goals.values()\<close>
  iterates in), the id counter, and the document last written to \<open>active_plans.json\<close>
  (the counter and all goals).\<close>

record planner =
  goals :: "(string \<times> goal) list"
  id_counter :: int
  plans_file :: "(int \<times> (string \<times> goal) list) option"

text \<open>\<open>GoalPlanner.__init__\<close> when no plans file exists.\<close>

definition planner_init :: planner where
  "planner_init = \<lparr>goals = [], id_counter = 0, plans_file = None\<rparr>"

definition save :: "planner \<Rightarrow> planner" where
  "save pl = pl\<lparr>plans_file := Some (id_counter pl, goals pl)\<rparr>"

definition lookup :: "planner \<Rightarrow> string \<Rightarrow> goal option" where
  "lookup pl gid = map_of (goals pl) gid"

text \<open>Truthiness of an optional string: \<open>None\<close> and the empty string are falsy.\<close>

definition truthy :: "string option \<Rightarrow> bool" where
  "truthy s \<longleftrightarrow> (case s of None \<Rightarrow> False | Some t \<Rightarrow> t \<noteq> [])"

text \<open>\<open>add_goal\<close>; \<open>now\<close> is the reading of \<open>time.time()\<close> that stamps \<open>created_at\<close>.
  Assigning to a dictionary key replaces the value in place when the key exists and appends
  the key otherwise, as \<open>AList.update\<close> does.\<close>

definition add_goal ::
  "planner \<Rightarrow> string \<Rightarrow> string \<Rightarrow> int \<Rightarrow> string option \<Rightarrow> string list option \<Rightarrow> real
     \<Rightarrow> string \<times> planner" where
  "add_goal pl nm descr prio parent prereqs now =
     (let c = id_counter pl + 1;
          gid = ''goal_'' @ str_int c;
          g = \<lparr>goal_id = gid, name = nm, description = descr, status = PENDING, priority = prio,
               parent_id = parent, children_ids = [],
               prerequisites = (case prereqs of None \<Rightarrow> [] | Some ps \<Rightarrow> ps),
               notes = [], attempts = 0, max_attempts = 10, created_at = now,
               completed_at = None\<rparr>;
          gs1 = AList.update gid g (goals pl);
          gs2 = (if truthy parent \<and> map_of gs1 (the parent) \<noteq> None
                 then AList.map_entry (the parent)
                        (\<lambda>p. p\<lparr>children_ids := children_ids p @ [gid]\<rparr>) gs1
                 else gs1)
      in (gid, save (pl\<lparr>goals := gs2, id_counter := c\<rparr>)))"

text \<open>\<open>add_goal\<close> keeps the list object it is handed (source line 93); the record above
  holds the content of that list. \<open>add_subgoals\<close> appends to the list of a step in place
  (source line 110) before handing it to \<open>add_goal\<close>, so a list that a goal of the tree
  already holds can grow, and with it the prerequisites of that goal. A planner value is the
  tree at the moment of a call. None of the functions below writes to a list of
  prerequisites, and what is proved of them is proved for every planner value, whichever
  calls produced it.\<close>

text \<open>The test of \<open>complete_goal\<close> for completing the parent too: the parent is present and
  each of its children present in the tree is completed. It yields the id the recursive call
  is made with, \<open>parent.id\<close>.\<close>

definition parent_to_complete :: "planner \<Rightarrow> goal \<Rightarrow> string option" where
  "parent_to_complete pl g =
     (if truthy (parent_id g) then
        (case lookup pl (the (parent_id g)) of
           None \<Rightarrow> None
         | Some parent \<Rightarrow>
             if list_all (\<lambda>cid. case lookup pl cid of None \<Rightarrow> True
                                 | Some c \<Rightarrow> status c = COMPLETED) (children_ids parent)
             then Some (goal_id parent) else None)
      else None)"

text \<open>\<open>complete_goal\<close> calls itself on the parent. The first argument is the number of
  nested calls the interpreter still allows; running out of it is the \<open>RecursionError\<close>,
  the result \<open>None\<close>. The clock gives the reading of \<open>time.time()\<close> of each nested call.\<close>

fun complete_goal :: "nat \<Rightarrow> planner \<Rightarrow> string \<Rightarrow> string \<Rightarrow> (nat \<Rightarrow> real) \<Rightarrow> planner option" where
  "complete_goal depth pl gid note clock =
     (case lookup pl gid of
        None \<Rightarrow> Some pl
      | Some g \<Rightarrow>
          let g' = g\<lparr>status := COMPLETED, completed_at := Some (clock 0),
                     notes := (if note \<noteq> [] then notes g @ [''Completed: '' @ note] else notes g)\<rparr>;
              pl1 = pl\<lparr>goals := AList.update gid g' (goals pl)\<rparr>
          in (case parent_to_complete pl1 g' of
                None \<Rightarrow> Some (save pl1)
              | Some pid \<Rightarrow>
                  (case depth of
                     0 \<Rightarrow> None
                   | Suc d \<Rightarrow>
                       (case complete_goal d pl1 pid ''All sub-goals completed'' (\<lambda>k. clock (Suc k)) of
                          None \<Rightarrow> None
                        | Some pl2 \<Rightarrow> Some (save pl2)))))"

definition fail_goal :: "planner \<Rightarrow> string \<Rightarrow> string \<Rightarrow> planner" where
  "fail_goal pl gid reason =
     (case lookup pl gid of
        None \<Rightarrow> pl
      | Some g \<Rightarrow>
          let a = attempts g + 1;
              g' = (if a \<ge> max_attempts g
                    then g\<lparr>attempts := a, status := FAILED,
                           notes := notes g @ [''Failed permanently: '' @ reason]\<rparr>
                    else g\<lparr>attempts := a, status := PENDING,
                           notes := notes g @ [''Attempt '' @ str_int a @ '' failed: '' @ reason]\<rparr>)
          in save (pl\<lparr>goals := AList.update gid g' (goals pl)\<rparr>))"

definition block_goal :: "planner \<Rightarrow> string \<Rightarrow> string \<Rightarrow> planner" where
  "block_goal pl gid reason =
     (case lookup pl gid of
        None \<Rightarrow> pl
      | Some g \<Rightarrow>
          save (pl\<lparr>goals := AList.update gid
                  (g\<lparr>status := BLOCKED, notes := notes g @ [''Blocked: '' @ reason]\<rparr>) (goals pl)\<rparr>))"

definition prerequisites_met :: "planner \<Rightarrow> goal \<Rightarrow> bool" where
  "prerequisites_met pl g \<longleftrightarrow>
     list_all (\<lambda>prereq_id. case lookup pl prereq_id of None \<Rightarrow> False
                           | Some prereq \<Rightarrow> status prereq = COMPLETED) (prerequisites g)"

definition in_flight :: "goal \<Rightarrow> bool" where
  "in_flight g \<longleftrightarrow> status g = ACTIVE \<or> status g = IN_PROGRESS"

text \<open>The loop of \<open>_get_next_child\<close> over the children ids of a parent; it calls itself on
  an active child that has children, within the same bound on nested calls. The result is
  the goal returned (if any) and the planner, changed when a child was promoted.\<close>

fun next_child_in :: "nat \<Rightarrow> planner \<Rightarrow> string list \<Rightarrow> (goal option \<times> planner) option" where
  "next_child_in depth pl [] = Some (None, pl)"
| "next_child_in depth pl (cid # cids) =
     (case lookup pl cid of
        None \<Rightarrow> next_child_in depth pl cids
      | Some child \<Rightarrow>
          if in_flight child then
            (if children_ids child \<noteq> [] then
               (case depth of
                  0 \<Rightarrow> None
                | Suc d \<Rightarrow>
                    (case next_child_in d pl (children_ids child) of
                       None \<Rightarrow> None
                     | Some (None, pl') \<Rightarrow> Some (Some child, pl')
                     | Some (Some deeper, pl') \<Rightarrow> Some (Some deeper, pl')))
             else Some (Some child, pl))
          else if status child = PENDING \<and> prerequisites_met pl child then
            (let child' = child\<lparr>status := ACTIVE\<rparr>
             in Some (Some child', save (pl\<lparr>goals := AList.update cid child' (goals pl)\<rparr>)))
          else next_child_in depth pl cids)"

definition get_next_child :: "nat \<Rightarrow> planner \<Rightarrow> goal \<Rightarrow> (goal option \<times> planner) option" where
  "get_next_child depth pl parent = next_child_in depth pl (children_ids parent)"

text \<open>\<open>_select_next_goal\<close>: Python's sort is stable, as \<open>sort_key\<close> is.\<close>

definition select_next_goal :: "planner \<Rightarrow> goal option \<times> planner" where
  "select_next_goal pl =
     (let candidates = filter (\<lambda>(k, g). status g = PENDING \<and> \<not> truthy (parent_id g)
                                  \<and> prerequisites_met pl g) (goals pl)
      in case sort_key (\<lambda>(k, g). priority g) candidates of
           [] \<Rightarrow> (None, pl)
         | (k, best) # rest \<Rightarrow>
             (let best' = best\<lparr>status := ACTIVE\<rparr>
              in (Some best', save (pl\<lparr>goals := AList.update k best' (goals pl)\<rparr>))))"

definition get_current_goal :: "nat \<Rightarrow> planner \<Rightarrow> (goal option \<times> planner) option" where
  "get_current_goal depth pl =
     (case find in_flight (map snd (goals pl)) of
        Some g \<Rightarrow>
          if children_ids g \<noteq> [] then
            (case get_next_child depth pl g of
               None \<Rightarrow> None
             | Some (None, pl') \<Rightarrow> Some (Some g, pl')
             | Some (Some child, pl') \<Rightarrow> Some (Some child, pl'))
          else Some (Some g, pl)
      | None \<Rightarrow> Some (select_next_goal pl))"

text \<open>Calls on the planner, and their execution in sequence; a call that raises ends the
  run.\<close>

datatype call =
    AddGoal string string int "string option" "string list option" real
  | CompleteGoal string string "nat \<Rightarrow> real"
  | FailGoal string string
  | BlockGoal string string
  | GetCurrentGoal

fun exec_call :: "nat \<Rightarrow> call \<Rightarrow> planner \<Rightarrow> planner option" where
  "exec_call depth (AddGoal nm descr prio parent prereqs now) pl =
     Some (snd (add_goal pl nm descr prio parent prereqs now))"
| "exec_call depth (CompleteGoal gid note clock) pl = complete_goal depth pl gid note clock"
| "exec_call depth (FailGoal gid reason) pl = Some (fail_goal pl gid reason)"
| "exec_call depth (BlockGoal gid reason) pl = Some (block_goal pl gid reason)"
| "exec_call depth GetCurrentGoal pl = map_option snd (get_current_goal depth pl)"

fun run :: "nat \<Rightarrow> call list \<Rightarrow> planner \<Rightarrow> planner option" where
  "run depth [] pl = Some pl"
| "run depth (c # cs) pl = (case exec_call depth c pl of None \<Rightarrow> None | Some pl' \<Rightarrow> run depth cs pl')"

definition c3_goal :: goal where
  "c3_goal = \<lparr>goal_id = ''goal_1'', name = ''Beat Brock'', description = ''Gym 1'', status = ACTIVE,
     priority = 5, parent_id = None, children_ids = [], prerequisites = [], notes = [],
     attempts = 8, max_attempts = 10, created_at = 0, completed_at = None\<rparr>"

definition c3_planner :: planner where
  "c3_planner = \<lparr>goals = [(''goal_1'', c3_goal)], id_counter = 1, plans_file = None\<rparr>"

subsection \<open>Vocabulary of the goal tree's specification\<close>

definition children_completed :: "planner \<Rightarrow> goal \<Rightarrow> bool" where
  "children_completed pl parent \<longleftrightarrow>
     list_all (\<lambda>cid. case lookup pl cid of None \<Rightarrow> True | Some c \<Rightarrow> status c = COMPLETED)
       (children_ids parent)"

definition completed :: "planner \<Rightarrow> string \<Rightarrow> bool" where
  "completed pl gid \<longleftrightarrow> map_option status (lookup pl gid) = Some COMPLETED"

text \<open>The goals a completion of \<open>gid\<close> cascades to: \<open>gid\<close> itself, and the parent of a goal
  it cascades to when every child of that parent present in the tree is completed.\<close>

inductive cascades :: "planner \<Rightarrow> string \<Rightarrow> string \<Rightarrow> bool" for pl :: planner and gid :: string where
  cascades_self: "cascades pl gid gid"
| cascades_up: "cascades pl gid x \<Longrightarrow> lookup pl x = Some g \<Longrightarrow> parent_id g = Some p \<Longrightarrow> p \<noteq> []
     \<Longrightarrow> lookup pl p = Some parent \<Longrightarrow> children_completed pl parent \<Longrightarrow> cascades pl gid p"

text \<open>Every goal is stored under its own id, as \<open>add_goal\<close> stores it.\<close>

definition ids_consistent :: "planner \<Rightarrow> bool" where
  "ids_consistent pl \<longleftrightarrow> list_all (\<lambda>(k, g). goal_id g = k) (goals pl)"

text \<open>The parent references form a forest: a rank decreases from every goal to its parent
  when the parent is in the tree.\<close>

definition ranked :: "(string \<Rightarrow> nat) \<Rightarrow> planner \<Rightarrow> bool" where
  "ranked rank pl \<longleftrightarrow>
     list_all (\<lambda>(k, g). case parent_id g of None \<Rightarrow> True
                        | Some p \<Rightarrow> lookup pl p \<noteq> None \<longrightarrow> rank p < rank k) (goals pl)"

text \<open>The goal as \<open>complete_goal\<close> leaves it.\<close>

definition mark_completed :: "goal \<Rightarrow> string \<Rightarrow> real \<Rightarrow> goal" where
  "mark_completed g note now =
     g\<lparr>status := COMPLETED, completed_at := Some now,
       notes := (if note \<noteq> [] then notes g @ [''Completed: '' @ note] else notes g)\<rparr>"

text \<open>A tree of three levels: the root, a milestone under it, and two steps under the
  milestone, the second of them completed.\<close>

definition c4_calls :: "call list" where
  "c4_calls =
     [AddGoal ''Beat the Elite Four'' ''Complete the game'' 1 None None 0,
      AddGoal ''Pewter City'' ''Beat Brock'' 5 (Some ''goal_1'') None 0,
      AddGoal ''Train'' ''Reach level 12'' 5 (Some ''goal_2'') None 0,
      AddGoal ''Heal'' ''Visit the Pokemon Center'' 5 (Some ''goal_2'') None 0,
      CompleteGoal ''goal_4'' ''healed'' (\<lambda>k. 0)]"

definition c4_planner_goals :: "(string \<times> goal) list" where
  "c4_planner_goals =
       [(''goal_1'', \<lparr>goal_id = ''goal_1'', name = ''Beat the Elite Four'', description = ''Complete the game'', status = PENDING,
          priority = 1, parent_id = None, children_ids = [''goal_2''],
          prerequisites = [], notes = [],
          attempts = 0, max_attempts = 10, created_at = 0, completed_at = None\<rparr>),
        (''goal_2'', \<lparr>goal_id = ''goal_2'', name = ''Pewter City'', description = ''Beat Brock'', status = PENDING,
          priority = 5, parent_id = Some ''goal_1'', children_ids = [''goal_3'', ''goal_4''],
          prerequisites = [], notes = [],
          attempts = 0, max_attempts = 10, created_at = 0, completed_at = None\<rparr>),
        (''goal_3'', \<lparr>goal_id = ''goal_3'', name = ''Train'', description = ''Reach level 12'', status = PENDING,
          priority = 5, parent_id = Some ''goal_2'', children_ids = [],
          prerequisites = [], notes = [],
          attempts = 0, max_attempts = 10, created_at = 0, completed_at = None\<rparr>),
        (''goal_4'', \<lparr>goal_id = ''goal_4'', name = ''Heal'', description = ''Visit the Pokemon Center'', status = COMPLETED,
          priority = 5, parent_id = Some ''goal_2'', children_ids = [],
          prerequisites = [], notes = [''Completed: healed''],
          attempts = 0, max_attempts = 10, created_at = 0, completed_at = Some 0\<rparr>)]"

definition c4_planner :: planner where
  "c4_planner = \<lparr>goals = c4_planner_goals, id_counter = 4, plans_file = Some (4, c4_planner_goals)\<rparr>"

definition c4_rank :: "string \<Rightarrow> nat" where
  "c4_rank k = (if k = ''goal_1'' then 0 else if k = ''goal_2'' then 1 else 2)"

definition c4_after_goals :: "(string \<times> goal) list" where
  "c4_after_goals =
       [(''goal_1'', \<lparr>goal_id = ''goal_1'', name = ''Beat the Elite Four'', description = ''Complete the game'', status = COMPLETED,
          priority = 1, parent_id = None, children_ids = [''goal_2''],
          prerequisites = [], notes = [''Completed: All sub-goals completed''],
          attempts = 0, max_attempts = 10, created_at = 0, completed_at = Some 0\<rparr>),
        (''goal_2'', \<lparr>goal_id = ''goal_2'', name = ''Pewter City'', description = ''Beat Brock'', status = COMPLETED,
          priority = 5, parent_id = Some ''goal_1'', children_ids = [''goal_3'', ''goal_4''],
          prerequisites = [], notes = [''Completed: All sub-goals completed''],
          attempts = 0, max_attempts = 10, created_at = 0, completed_at = Some 0\<rparr>),
        (''goal_3'', \<lparr>goal_id = ''goal_3'', name = ''Train'', description = ''Reach level 12'', status = COMPLETED,
          priority = 5, parent_id = Some ''goal_2'', children_ids = [],
          prerequisites = [], notes = [''Completed: trained''],
          attempts = 0, max_attempts = 10, created_at = 0, completed_at = Some 0\<rparr>),
        (''goal_4'', \<lparr>goal_id = ''goal_4'', name = ''Heal'', description = ''Visit the Pokemon Center'', status = COMPLETED,
          priority = 5, parent_id = Some ''goal_2'', children_ids = [],
          prerequisites = [], notes = [''Completed: healed''],
          attempts = 0, max_attempts = 10, created_at = 0, completed_at = Some 0\<rparr>)]"

definition c4_after :: planner where
  "c4_after = \<lparr>goals = c4_after_goals, id_counter = 4, plans_file = Some (4, c4_after_goals)\<rparr>"

text \<open>What \<open>complete_goal\<close> may change of a goal: its status, completion time and notes.\<close>

definition same_but_completion :: "goal \<Rightarrow> goal \<Rightarrow> bool" where
  "same_but_completion g g' \<longleftrightarrow>
     goal_id g' = goal_id g \<and> name g' = name g \<and> description g' = description g
     \<and> priority g' = priority g \<and> parent_id g' = parent_id g \<and> children_ids g' = children_ids g
     \<and> prerequisites g' = prerequisites g \<and> attempts g' = attempts g
     \<and> max_attempts g' = max_attempts g \<and> created_at g' = created_at g"

text \<open>The tree keeps its shape from \<open>pl\<close> to \<open>pl'\<close>: the same ids are present, every goal
  keeps all but its status, completion time and notes, and a completed goal stays
  completed.\<close>

definition stable :: "planner \<Rightarrow> planner \<Rightarrow> bool" where
  "stable pl pl' \<longleftrightarrow>
     (\<forall>k. case lookup pl k of
             None \<Rightarrow> lookup pl' k = None
           | Some g \<Rightarrow> (\<exists>g'. lookup pl' k = Some g' \<and> same_but_completion g g'
                           \<and> (status g = COMPLETED \<longrightarrow> status g' = COMPLETED)))"

text \<open>A goal created with the id it is about to get as its parent: it is its own parent
  and its own child.\<close>

definition zero_clock :: "nat \<Rightarrow> real" where
  "zero_clock k = 0"

definition c4_self_calls :: "call list" where
  "c4_self_calls = [AddGoal ''Catch a Pikachu'' ''Viridian Forest'' 5 (Some ''goal_1'') None 0]"

definition c4_self_goals :: "(string \<times> goal) list" where
  "c4_self_goals =
     [(''goal_1'',
       \<lparr>goal_id = ''goal_1'', name = ''Catch a Pikachu'', description = ''Viridian Forest'',
        status = PENDING, priority = 5, parent_id = Some ''goal_1'', children_ids = [''goal_1''],
        prerequisites = [], notes = [], attempts = 0, max_attempts = 10, created_at = 0,
        completed_at = None\<rparr>)]"

definition c4_self_parent :: planner where
  "c4_self_parent = \<lparr>goals = c4_self_goals, id_counter = 1, plans_file = Some (1, c4_self_goals)\<rparr>"

text \<open>How \<open>get_current_goal\<close> comes by the goal it returns: the goal was in the tree, active
  or in progress, and the tree is left as it was; or the goal was in the tree under \<open>k\<close>,
  pending with every prerequisite present and completed, and is made active.\<close>

definition already_in_flight :: "planner \<Rightarrow> goal \<Rightarrow> planner \<Rightarrow> bool" where
  "already_in_flight pl g pl' \<longleftrightarrow> g \<in> set (map snd (goals pl)) \<and> in_flight g \<and> pl' = pl"

definition promoted :: "planner \<Rightarrow> string \<Rightarrow> goal \<Rightarrow> goal \<Rightarrow> planner \<Rightarrow> bool" where
  "promoted pl k g0 g pl' \<longleftrightarrow>
     lookup pl k = Some g0 \<and> status g0 = PENDING \<and> prerequisites_met pl g0
     \<and> g = g0\<lparr>status := ACTIVE\<rparr>
     \<and> pl' = save (pl\<lparr>goals := AList.update k g (goals pl)\<rparr>)"

text \<open>A prerequisite is completed, the goal waiting for it becomes active, and the
  prerequisite is failed afterwards.\<close>

definition c1_calls :: "call list" where
  "c1_calls = [AddGoal ''Get starter'' ''Pick a starter'' 1 None None 0,
               AddGoal ''Reach Viridian'' ''Walk north'' 2 None (Some [''goal_1'']) 0,
               CompleteGoal ''goal_1'' ''done'' (\<lambda>k. 0),
               GetCurrentGoal,
               FailGoal ''goal_1'' ''reverted'']"

definition c1_goal :: goal where
  "c1_goal =
       \<lparr>goal_id = ''goal_2'', name = ''Reach Viridian'', description = ''Walk north'', status = ACTIVE,
          priority = 2, parent_id = None, children_ids = [],
          prerequisites = [''goal_1''], notes = [],
          attempts = 0, max_attempts = 10, created_at = 0, completed_at = None\<rparr>"

definition c1_goals :: "(string \<times> goal) list" where
  "c1_goals =
       [(''goal_1'', \<lparr>goal_id = ''goal_1'', name = ''Get starter'', description = ''Pick a starter'', status = PENDING,
          priority = 1, parent_id = None, children_ids = [],
          prerequisites = [], notes = [''Completed: done'', ''Attempt 1 failed: reverted''],
          attempts = 1, max_attempts = 10, created_at = 0, completed_at = Some 0\<rparr>),
        (''goal_2'', c1_goal)]"

definition c1_planner :: planner where
  "c1_planner = \<lparr>goals = c1_goals, id_counter = 2, plans_file = Some (2, c1_goals)\<rparr>"

text \<open>The same tree before the prerequisite is failed: first with \<open>goal_2\<close> pending,
  then with \<open>goal_2\<close> promoted.\<close>

definition c1_ready_calls :: "call list" where
  "c1_ready_calls = [AddGoal ''Get starter'' ''Pick a starter'' 1 None None 0,
               AddGoal ''Reach Viridian'' ''Walk north'' 2 None (Some [''goal_1'']) 0,
               CompleteGoal ''goal_1'' ''done'' (\<lambda>k. 0)]"

definition c1_done_goal :: goal where
  "c1_done_goal =
       \<lparr>goal_id = ''goal_1'', name = ''Get starter'', description = ''Pick a starter'', status = COMPLETED,
          priority = 1, parent_id = None, children_ids = [],
          prerequisites = [], notes = [''Completed: done''],
          attempts = 0, max_attempts = 10, created_at = 0, completed_at = Some 0\<rparr>"

definition c1_ready_goals :: "(string \<times> goal) list" where
  "c1_ready_goals =
       [(''goal_1'', c1_done_goal),
        (''goal_2'', \<lparr>goal_id = ''goal_2'', name = ''Reach Viridian'', description = ''Walk north'', status = PENDING,
          priority = 2, parent_id = None, children_ids = [],
          prerequisites = [''goal_1''], notes = [],
          attempts = 0, max_attempts = 10, created_at = 0, completed_at = None\<rparr>)]"

definition c1_ready :: planner where
  "c1_ready = \<lparr>goals = c1_ready_goals, id_counter = 2, plans_file = Some (2, c1_ready_goals)\<rparr>"

definition c1_promoted_goals :: "(string \<times> goal) list" where
  "c1_promoted_goals = [(''goal_1'', c1_done_goal), (''goal_2'', c1_goal)]"

definition c1_promoted :: planner where
  "c1_promoted = \<lparr>goals = c1_promoted_goals, id_counter = 2, plans_file = Some (2, c1_promoted_goals)\<rparr>"

section \<open>Navigator: properties\<close>

lemma start_detour_ticks:
  "detour_ticks (snd (start_detour nav dx dy)) = min (3 + total_stuck nav * 2) 12"
  by (simp add: start_detour_def Let_def)

lemma start_detour_total:
  "total_stuck (snd (start_detour nav dx dy)) = total_stuck nav"
  by (simp add: start_detour_def Let_def)

lemma fst_start_detour: "fst (start_detour nav dx dy) \<noteq> None"
  by (simp add: start_detour_def Let_def)

lemma fst_start_detour_Some: "\<exists>d. fst (start_detour nav dx dy) = Some d"
  using fst_start_detour[of nav dx dy] by blast

lemma gnd_unfold:
  "get_next_direction nav x y m =
     (if \<not> active nav \<or> target nav = None then (None, nav)
      else if m \<noteq> target_map nav then (None, cancel nav)
      else if chebyshev (x, y) (the (target nav)) \<le> 1
        then (None, nav\<lparr>active := False, total_stuck := 0\<rparr>)
      else detour_phase nav x y (fst (the (target nav)) - x) (snd (the (target nav)) - y))"
proof (cases "target nav")
  case None
  then show ?thesis by (simp add: get_next_direction_def)
next
  case (Some t)
  obtain tx ty where "t = (tx, ty)" by (cases t)
  with Some show ?thesis
    by (simp add: get_next_direction_def chebyshev_def detour_phase_def unmoved_def Let_def)
qed

lemma en_route_iff:
  "en_route nav x y m \<longleftrightarrow>
     \<not> (\<not> active nav \<or> target nav = None \<or> m \<noteq> target_map nav
        \<or> (\<exists>t. target nav = Some t \<and> chebyshev (x, y) t \<le> 1))"
  by (cases "target nav") (auto simp: en_route_def)

lemma gnd_not_en_route:
  "\<not> en_route nav x y m \<Longrightarrow> fst (get_next_direction nav x y m) = None"
  by (cases "target nav") (auto simp: gnd_unfold en_route_def)

lemma gnd_not_en_route_ticks:
  "\<not> en_route nav x y m \<Longrightarrow>
     detour_ticks (snd (get_next_direction nav x y m)) \<in> {detour_ticks nav, 0}"
  by (cases "target nav") (auto simp: gnd_unfold en_route_def cancel_def)

lemma gnd_en_route:
  "en_route nav x y m \<Longrightarrow>
     get_next_direction nav x y m =
       detour_phase nav x y (fst (the (target nav)) - x) (snd (the (target nav)) - y)"
  by (cases "target nav") (auto simp: gnd_unfold en_route_def)

lemma stuck_detection_cases:
  "stuck_detection nav x y dx dy =
     (if (if unmoved nav x y then stuck_count nav + 1 else 0) \<ge> 3 then
        start_detour (nav\<lparr>stuck_count := (if unmoved nav x y then stuck_count nav + 1 else 0),
                          prev_x := x, prev_y := y, total_stuck := total_stuck nav + 1\<rparr>) dx dy
      else if total_stuck nav \<ge> 15 then
        (None, cancel (nav\<lparr>stuck_count := (if unmoved nav x y then stuck_count nav + 1 else 0),
                          prev_x := x, prev_y := y\<rparr>))
      else (Some (greedy_direction dx dy),
            nav\<lparr>stuck_count := (if unmoved nav x y then stuck_count nav + 1 else 0),
                prev_x := x, prev_y := y\<rparr>))"
  by (simp add: stuck_detection_def unmoved_def Let_def)

lemma gnd_en_route_none:
  assumes "en_route nav x y m" and "detour_ticks nav > 1 \<longrightarrow> detour_dir nav \<noteq> None"
  shows "fst (get_next_direction nav x y m) = None \<longleftrightarrow> gives_up nav x y"
proof -
  note eq = gnd_en_route[OF assms(1)]
  show ?thesis
    unfolding eq detour_phase_def stuck_detection_cases gives_up_def using assms(2)
    by (auto simp: fst_start_detour fst_start_detour_Some unmoved_def)
qed

lemma gnd_starts:
  assumes "en_route nav x y m" "starts_detour nav x y"
  shows "detour_ticks (snd (get_next_direction nav x y m))
          = min (3 + 2 * total_stuck (snd (get_next_direction nav x y m))) 12"
proof -
  note eq = gnd_en_route[OF assms(1)]
  show ?thesis
    unfolding eq detour_phase_def stuck_detection_cases using assms(2)
    by (auto simp: starts_detour_def unmoved_def start_detour_ticks start_detour_total)
qed

lemma gnd_not_starts:
  assumes "en_route nav x y m" "\<not> starts_detour nav x y"
  shows "detour_ticks (snd (get_next_direction nav x y m))
           \<in> {detour_ticks nav, detour_ticks nav - 1, 0}"
proof -
  note eq = gnd_en_route[OF assms(1)]
  show ?thesis
    unfolding eq detour_phase_def stuck_detection_cases using assms(2)
    by (auto simp: starts_detour_def unmoved_def cancel_def)
qed

lemma nav_inv_init: "nav_inv (navigator_init wd)"
  by (simp add: nav_inv_def navigator_init_def)

lemma nav_inv_set_target: "nav_inv nav \<Longrightarrow> nav_inv (snd (set_target nav m k))"
  by (auto simp: nav_inv_def set_target_def split: option.splits)

lemma nav_inv_cancel: "nav_inv (cancel nav)"
  by (simp add: nav_inv_def cancel_def)

lemma nav_inv_start_detour: "active nav \<longrightarrow> target nav \<noteq> None \<Longrightarrow> nav_inv (snd (start_detour nav dx dy))"
  by (simp add: nav_inv_def start_detour_def Let_def)

lemma nav_inv_stuck_detection:
  "nav_inv nav \<Longrightarrow> nav_inv (snd (stuck_detection nav x y dx dy))"
  unfolding stuck_detection_cases
  by (auto simp: nav_inv_cancel intro!: nav_inv_start_detour) (auto simp: nav_inv_def)

lemma nav_inv_detour_phase:
  "nav_inv nav \<Longrightarrow> nav_inv (snd (detour_phase nav x y dx dy))"
  unfolding detour_phase_def
  apply (auto intro!: nav_inv_start_detour nav_inv_stuck_detection)
  apply (auto simp: nav_inv_def)
  done

lemma nav_inv_gnd: "nav_inv nav \<Longrightarrow> nav_inv (snd (get_next_direction nav x y m))"
  unfolding gnd_unfold
  by (auto simp: nav_inv_cancel nav_inv_detour_phase) (auto simp: nav_inv_def)

lemma nav_inv_exec: "nav_inv nav \<Longrightarrow> nav_inv (nav_exec c nav)"
  by (cases c) (simp_all add: nav_inv_set_target nav_inv_gnd nav_inv_cancel)

lemma nav_inv_fold: "nav_inv nav \<Longrightarrow> nav_inv (fold nav_exec calls nav)"
  by (induction calls arbitrary: nav) (simp_all add: nav_inv_exec)

lemma nav_inv_run: "nav_inv (nav_run calls (navigator_init wd))"
  unfolding nav_run_def by (rule nav_inv_fold[OF nav_inv_init])

lemma gnd_none_iff:
  assumes "nav_inv nav"
  shows "fst (get_next_direction nav x y m) = None \<longleftrightarrow>
     \<not> active nav \<or> m \<noteq> target_map nav
     \<or> (\<exists>t. target nav = Some t \<and> chebyshev (x, y) t \<le> 1)
     \<or> gives_up nav x y"
proof (cases "en_route nav x y m")
  case True
  then have "\<not> (\<not> active nav \<or> m \<noteq> target_map nav
     \<or> (\<exists>t. target nav = Some t \<and> chebyshev (x, y) t \<le> 1))"
    by (auto simp: en_route_def split: option.splits)
  moreover from assms have "detour_ticks nav > 1 \<longrightarrow> detour_dir nav \<noteq> None"
    by (simp add: nav_inv_def)
  ultimately show ?thesis using gnd_en_route_none[OF True] by auto
next
  case False
  with assms have "\<not> active nav \<or> m \<noteq> target_map nav
     \<or> (\<exists>t. target nav = Some t \<and> chebyshev (x, y) t \<le> 1)"
    by (auto simp: en_route_def nav_inv_def split: option.splits)
  with gnd_not_en_route[OF False] show ?thesis by auto
qed

text \<open>Claim C2, amended. Between calls (after any sequence of \<open>set_target\<close>,
  \<open>get_next_direction\<close> and \<open>cancel\<close> on a fresh navigator), \<open>get_next_direction\<close>
  returns none if and only if navigation is inactive, or the map differs from the target's
  map, or the Chebyshev distance to the target is at most 1, or the call gives up: no detour
  tick remains, the no-movement counter stays below 3 and the cumulative stuck counter has
  reached 15.\<close>

theorem get_next_direction_none_iff:
  "fst (get_next_direction (nav_run calls (navigator_init wd)) x y m) = None \<longleftrightarrow>
     \<not> active (nav_run calls (navigator_init wd))
     \<or> m \<noteq> target_map (nav_run calls (navigator_init wd))
     \<or> (\<exists>t. target (nav_run calls (navigator_init wd)) = Some t \<and> chebyshev (x, y) t \<le> 1)
     \<or> gives_up (nav_run calls (navigator_init wd)) x y"
  by (rule gnd_none_iff[OF nav_inv_run])

theorem get_next_direction_none_iff_witness:
  "fst (get_next_direction (nav_run [SetTarget 1 ''lab''] (navigator_init c2_registry)) 0 0 1) = Some RIGHT
   \<and> active (nav_run [SetTarget 1 ''lab''] (navigator_init c2_registry))
   \<and> 1 = target_map (nav_run [SetTarget 1 ''lab''] (navigator_init c2_registry))
   \<and> target (nav_run [SetTarget 1 ''lab''] (navigator_init c2_registry)) = Some (20, 0)
   \<and> \<not> chebyshev (0, 0) (20, 0) \<le> 1
   \<and> \<not> gives_up (nav_run [SetTarget 1 ''lab''] (navigator_init c2_registry)) 0 0"
proof -
  have "fst (get_next_direction (nav_run [SetTarget 1 ''lab''] (navigator_init c2_registry)) 0 0 1) = Some RIGHT
   \<and> active (nav_run [SetTarget 1 ''lab''] (navigator_init c2_registry))
   \<and> 1 = target_map (nav_run [SetTarget 1 ''lab''] (navigator_init c2_registry))
   \<and> target (nav_run [SetTarget 1 ''lab''] (navigator_init c2_registry)) = Some (20, 0)
   \<and> \<not> chebyshev (0, 0) (20, 0) \<le> 1"
    by code_simp
  with get_next_direction_none_iff[of "[SetTarget 1 ''lab'']" c2_registry 0 0 1]
  show ?thesis by simp
qed

text \<open>Claim C2 as stated fails: after the walk \<open>c2_calls\<close> the navigator is active, on
  the target's map and 20 tiles from the target, and the next call returns none (it gives
  up and cancels).\<close>

theorem get_next_direction_gives_up:
  "nav_run c2_calls (navigator_init c2_registry) = c2_state
   \<and> fst (get_next_direction c2_state 0 0 1) = None
   \<and> active c2_state \<and> target_map c2_state = 1 \<and> target c2_state = Some (20, 0)
   \<and> chebyshev (0, 0) (20, 0) = 20"
  by code_simp

text \<open>Claim C6. \<open>_start_detour\<close> sets the detour length to
  \<open>min (3 + 2 * total_stuck) 12\<close>; for the counter values 0, 1, 2, 3, 4, 5 the lengths are
  3, 5, 7, 9, 11, 12. Whenever \<open>get_next_direction\<close> starts a detour, the length it leaves is
  that formula at the counter it leaves; when it starts none, the remaining ticks are kept,
  decremented or cleared; so a count of at most 12 ticks stays at most 12.\<close>

theorem detour_length:
  "detour_ticks (snd (start_detour nav dx dy)) = min (3 + 2 * total_stuck nav) 12
   \<and> map (\<lambda>c. detour_ticks (snd (start_detour (nav\<lparr>total_stuck := c\<rparr>) dx dy))) [0, 1, 2, 3, 4, 5]
       = [3, 5, 7, 9, 11, 12]
   \<and> (en_route nav x y m \<and> starts_detour nav x y \<longrightarrow>
        detour_ticks (snd (get_next_direction nav x y m))
          = min (3 + 2 * total_stuck (snd (get_next_direction nav x y m))) 12)
   \<and> (\<not> (en_route nav x y m \<and> starts_detour nav x y) \<longrightarrow>
        detour_ticks (snd (get_next_direction nav x y m))
          \<in> {detour_ticks nav, detour_ticks nav - 1, 0})
   \<and> (detour_ticks nav \<le> 12 \<longrightarrow> detour_ticks (snd (get_next_direction nav x y m)) \<le> 12)"
proof (intro conjI impI)
  show "detour_ticks (snd (start_detour nav dx dy)) = min (3 + 2 * total_stuck nav) 12"
    by (simp add: start_detour_ticks mult.commute)
  show "map (\<lambda>c. detour_ticks (snd (start_detour (nav\<lparr>total_stuck := c\<rparr>) dx dy))) [0, 1, 2, 3, 4, 5]
       = [3, 5, 7, 9, 11, 12]"
    by (simp add: start_detour_ticks)
  show "detour_ticks (snd (get_next_direction nav x y m))
          = min (3 + 2 * total_stuck (snd (get_next_direction nav x y m))) 12"
    if "en_route nav x y m \<and> starts_detour nav x y"
    using that gnd_starts by blast
  show a: "detour_ticks (snd (get_next_direction nav x y m))
          \<in> {detour_ticks nav, detour_ticks nav - 1, 0}"
    if "\<not> (en_route nav x y m \<and> starts_detour nav x y)"
    using that gnd_not_starts[of nav x y m] gnd_not_en_route_ticks[of nav x y m] by blast
  show "detour_ticks (snd (get_next_direction nav x y m)) \<le> 12" if b: "detour_ticks nav \<le> 12"
  proof (cases "en_route nav x y m \<and> starts_detour nav x y")
    case True
    then show ?thesis using gnd_starts[of nav x y m] by simp
  next
    case False
    from a[OF False] b show ?thesis by auto
  qed
qed

theorem detour_length_witness:
  "en_route c6_stuck 0 0 1 \<and> starts_detour c6_stuck 0 0
   \<and> total_stuck (snd (get_next_direction c6_stuck 0 0 1)) = 1
   \<and> detour_ticks (snd (get_next_direction c6_stuck 0 0 1)) = 5
   \<and> \<not> (en_route c2_walking 0 0 1 \<and> starts_detour c2_walking 0 0)
   \<and> detour_ticks c2_walking \<le> 12
   \<and> detour_ticks (snd (get_next_direction c2_walking 0 0 1)) = 0"
proof -
  have a: "en_route c6_stuck 0 0 1 \<and> starts_detour c6_stuck 0 0" by code_simp
  have b: "total_stuck (snd (get_next_direction c6_stuck 0 0 1)) = 1" by code_simp
  have c: "\<not> (en_route c2_walking 0 0 1 \<and> starts_detour c2_walking 0 0)" by code_simp
  have d: "detour_ticks c2_walking \<le> 12" by code_simp
  have e: "detour_ticks (snd (get_next_direction c2_walking 0 0 1)) = 0" by code_simp
  from detour_length[of c6_stuck 0 0 0 0 1] a b
  have f: "detour_ticks (snd (get_next_direction c6_stuck 0 0 1)) = 5" by simp
  from detour_length[of c2_walking 0 0 0 0 1] c d e
  have g: "detour_ticks (snd (get_next_direction c2_walking 0 0 1)) \<le> 12" by simp
  from a b c d e f g show ?thesis by simp
qed

text \<open>Claim C9. If the map lookup or the landmark lookup misses the registry, \<open>set_target\<close>
  returns false and the navigator is unchanged; if both hit, it returns true, sets the target,
  its label and map, activates navigation and resets the stuck and detour counters.\<close>

theorem set_target_result:
  "(map_of (warp_data nav) (str_int map_id) = None
    \<or> (\<exists>md. map_of (warp_data nav) (str_int map_id) = Some md \<and> map_of (landmarks_of md) landmark_key = None)
      \<longrightarrow> set_target nav map_id landmark_key = (False, nav))
   \<and> (map_of (warp_data nav) (str_int map_id) = Some md \<and> map_of (landmarks_of md) landmark_key = Some lm
      \<longrightarrow> set_target nav map_id landmark_key =
          (True, nav\<lparr>target := Some (lm_x lm, lm_y lm),
                     target_label := (case lm_label lm of None \<Rightarrow> landmark_key | Some l \<Rightarrow> l),
                     target_map := map_id, active := True, stuck_count := 0,
                     prev_x := - 1, prev_y := - 1, stuck_dir_idx := 0,
                     detour_dir := None, detour_ticks := 0, total_stuck := 0\<rparr>))"
  by (auto simp: set_target_def landmarks_of_def map_data_falsy_def split: option.splits)

theorem set_target_result_witness:
  "map_of (warp_data c2_state) (str_int 7) = None
   \<and> set_target c2_state 7 ''lab'' = (False, c2_state)
   \<and> map_of (warp_data c2_state) (str_int 1) = Some \<lparr>md_name = Some ''PALLET TOWN'',
      md_landmarks = Some [(''lab'', \<lparr>lm_x = 20, lm_y = 0, lm_label = None\<rparr>)]\<rparr>
   \<and> map_of (landmarks_of \<lparr>md_name = Some ''PALLET TOWN'',
      md_landmarks = Some [(''lab'', \<lparr>lm_x = 20, lm_y = 0, lm_label = None\<rparr>)]\<rparr>) ''gym'' = None
   \<and> set_target c2_state 1 ''gym'' = (False, c2_state)
   \<and> map_of (landmarks_of \<lparr>md_name = Some ''PALLET TOWN'',
      md_landmarks = Some [(''lab'', \<lparr>lm_x = 20, lm_y = 0, lm_label = None\<rparr>)]\<rparr>) ''lab''
        = Some \<lparr>lm_x = 20, lm_y = 0, lm_label = None\<rparr>
   \<and> set_target c2_state 1 ''lab'' = (True, c2_walking)"
proof -
  have a: "map_of (warp_data c2_state) (str_int 7) = None" by code_simp
  have b: "map_of (warp_data c2_state) (str_int 1) = Some \<lparr>md_name = Some ''PALLET TOWN'',
      md_landmarks = Some [(''lab'', \<lparr>lm_x = 20, lm_y = 0, lm_label = None\<rparr>)]\<rparr>" by code_simp
  have c: "map_of (landmarks_of \<lparr>md_name = Some ''PALLET TOWN'',
      md_landmarks = Some [(''lab'', \<lparr>lm_x = 20, lm_y = 0, lm_label = None\<rparr>)]\<rparr>) ''gym'' = None"
    by code_simp
  have d: "map_of (landmarks_of \<lparr>md_name = Some ''PALLET TOWN'',
      md_landmarks = Some [(''lab'', \<lparr>lm_x = 20, lm_y = 0, lm_label = None\<rparr>)]\<rparr>) ''lab''
        = Some \<lparr>lm_x = 20, lm_y = 0, lm_label = None\<rparr>" by code_simp
  have e: "c2_state\<lparr>target := Some (20, 0), target_label := ''lab'',
                     target_map := 1, active := True, stuck_count := 0,
                     prev_x := - 1, prev_y := - 1, stuck_dir_idx := 0,
                     detour_dir := None, detour_ticks := 0, total_stuck := 0\<rparr> = c2_walking"
    by code_simp
  from set_target_result[of c2_state 7 "''lab''"] a
  have f: "set_target c2_state 7 ''lab'' = (False, c2_state)" by simp
  from set_target_result[of c2_state 1 "''gym''"] b c
  have g: "set_target c2_state 1 ''gym'' = (False, c2_state)" by simp
  from set_target_result[of c2_state 1 "''lab''" "\<lparr>md_name = Some ''PALLET TOWN'',
      md_landmarks = Some [(''lab'', \<lparr>lm_x = 20, lm_y = 0, lm_label = None\<rparr>)]\<rparr>"
      "\<lparr>lm_x = 20, lm_y = 0, lm_label = None\<rparr>"] b d e
  have h: "set_target c2_state 1 ''lab'' = (True, c2_walking)" by simp
  from a b c d f g h show ?thesis by simp
qed

section \<open>Battle manager: properties\<close>

text \<open>Claim C5, amended. On a battle-to-none transition (tracker in battle, battle code 0)
  exactly one of the won and whiteout counters goes up by one: whiteout if the party is
  non-empty and every member's current HP is zero, or the snapshot's money is below the money
  recorded at battle start; otherwise won. On a none-to-battle transition the turn counter
  is reset to zero.\<close>

theorem update_battle_transitions:
  "(in_battle bm \<and> gs_in_battle gs = 0 \<longrightarrow>
      (if (party gs \<noteq> [] \<and> (\<forall>p \<in> set (party gs). get_hp_current p = 0)) \<or> money gs < prev_money bm
       then whiteouts (snd (update bm gs)) = whiteouts bm + 1
          \<and> battles_won (snd (update bm gs)) = battles_won bm
          \<and> fst (update bm gs) = [(''battle_end'', ''whiteout'')]
       else battles_won (snd (update bm gs)) = battles_won bm + 1
          \<and> whiteouts (snd (update bm gs)) = whiteouts bm
          \<and> fst (update bm gs) = [(''battle_end'', ''won'')]))
   \<and> (\<not> in_battle bm \<and> gs_in_battle gs > 0 \<longrightarrow>
        battle_turns (snd (update bm gs)) = 0 \<and> in_battle (snd (update bm gs)))"
  by (simp add: update_def all_fainted_def list_all_iff Let_def)

theorem update_battle_transitions_witness:
  "in_battle trainer_battle \<and> gs_in_battle fainted_snapshot = 0
   \<and> whiteouts (snd (update trainer_battle fainted_snapshot)) = 1
   \<and> battles_won (snd (update trainer_battle fainted_snapshot)) = 0
   \<and> gs_in_battle survived_snapshot = 0
   \<and> whiteouts (snd (update trainer_battle survived_snapshot)) = 0
   \<and> battles_won (snd (update trainer_battle survived_snapshot)) = 1
   \<and> \<not> in_battle (battle_manager_init water_chart) \<and> gs_in_battle trainer_snapshot > 0
   \<and> battle_turns (snd (update (battle_manager_init water_chart) trainer_snapshot)) = 0"
proof -
  have a: "in_battle trainer_battle \<and> gs_in_battle fainted_snapshot = 0
      \<and> gs_in_battle survived_snapshot = 0
      \<and> whiteouts trainer_battle = 0 \<and> battles_won trainer_battle = 0"
    by (simp add: trainer_battle_def fainted_snapshot_def survived_snapshot_def)
  have b: "(party fainted_snapshot \<noteq> [] \<and> (\<forall>p \<in> set (party fainted_snapshot). get_hp_current p = 0))"
    by (simp add: fainted_snapshot_def get_hp_current_def)
  have c: "\<not> ((party survived_snapshot \<noteq> [] \<and> (\<forall>p \<in> set (party survived_snapshot). get_hp_current p = 0))
      \<or> money survived_snapshot < prev_money trainer_battle)"
    by (simp add: survived_snapshot_def get_hp_current_def trainer_battle_def)
  have d: "\<not> in_battle (battle_manager_init water_chart :: rat battle_manager) \<and> gs_in_battle trainer_snapshot > 0"
    by (simp add: battle_manager_init_def trainer_snapshot_def)
  from update_battle_transitions[of trainer_battle fainted_snapshot] a b
  have e: "whiteouts (snd (update trainer_battle fainted_snapshot)) = 1
   \<and> battles_won (snd (update trainer_battle fainted_snapshot)) = 0" by simp
  from update_battle_transitions[of trainer_battle survived_snapshot] a c
  have f: "whiteouts (snd (update trainer_battle survived_snapshot)) = 0
   \<and> battles_won (snd (update trainer_battle survived_snapshot)) = 1" by simp
  from update_battle_transitions[of "battle_manager_init water_chart" trainer_snapshot] d
  have g: "battle_turns (snd (update (battle_manager_init water_chart) trainer_snapshot)) = 0" by simp
  from a d e f g show ?thesis by simp
qed

text \<open>Claim C5 as stated fails on an empty party: every member's HP is zero (there is none)
  and the money is unchanged, yet the battle counts as won.\<close>

theorem update_empty_party_won:
  "in_battle trainer_battle \<and> gs_in_battle empty_party_snapshot = 0
   \<and> party empty_party_snapshot = []
   \<and> whiteouts (snd (update trainer_battle empty_party_snapshot)) = whiteouts trainer_battle
   \<and> battles_won (snd (update trainer_battle empty_party_snapshot)) = battles_won trainer_battle + 1"
  by (simp add: update_def all_fainted_def trainer_battle_def empty_party_snapshot_def)

lemma foldl_factors:
  "foldl (\<lambda>multiplier dtype. case map_of row dtype of None \<Rightarrow> multiplier
                              | Some factor \<Rightarrow> multiplier * factor) a ds
     = foldl (*) a (List.map_filter (map_of row) ds)"
  by (induction ds arbitrary: a) (simp_all add: List.map_filter_simps split: option.splits)

lemma map_filter_none: "List.map_filter (\<lambda>x. None) ds = []"
  by (induction ds) (simp_all add: List.map_filter_simps)

lemma prod_list_ones: "prod_list (map (\<lambda>d. 1) ds) = (1::'b::monoid_mult)"
  by (induction ds) simp_all

lemma foldl_neutral:
  "foldl (\<lambda>multiplier dtype. case map_of row dtype of None \<Rightarrow> multiplier
                              | Some factor \<Rightarrow> multiplier * factor) (a::'b::monoid_mult) ds
     = a * prod_list (map (\<lambda>d. case map_of row d of None \<Rightarrow> 1 | Some f \<Rightarrow> f) ds)"
  by (induction ds arbitrary: a) (simp_all add: mult.assoc split: option.splits)

text \<open>Claim C7. For an attack type (a non-empty name) \<open>get_type_effectiveness\<close> returns
  the product, from 1 and in the order of the defending types, of the factors of the
  defending types present in the chart's row of the attack type; equivalently, where
  multiplying by 1 is neutral, the product over all defending types with 1 for those absent
  from the row. An empty chart and a missing attack type give 1. With Water to Fire 2 and
  Water to Flying 1, Water against Fire and Flying is 2.\<close>

theorem type_effectiveness_product:
  fixes bm :: "'a::{one,times} battle_manager" and bn :: "'b::monoid_mult battle_manager"
  shows
  "(attack_type \<noteq> [] \<longrightarrow>
      get_type_effectiveness bm (Some attack_type) defend_types
        = foldl (*) 1 (List.map_filter (map_of (chart_row bm attack_type)) defend_types))
   \<and> (attack_type \<noteq> [] \<longrightarrow>
      get_type_effectiveness bn (Some attack_type) defend_types
        = prod_list (map (\<lambda>d. case map_of (chart_row bn attack_type) d of None \<Rightarrow> 1 | Some f \<Rightarrow> f)
            defend_types))
   \<and> (type_chart bm = [] \<longrightarrow> get_type_effectiveness bm (Some attack_type) defend_types = 1)
   \<and> get_type_effectiveness bm None defend_types = 1
   \<and> get_type_effectiveness bm (Some []) defend_types = 1
   \<and> get_type_effectiveness (battle_manager_init water_chart) (Some ''Water'') [''Fire'', ''Flying'']
       = (2::rat)"
proof (intro conjI impI)
  show "get_type_effectiveness bm (Some attack_type) defend_types
        = foldl (*) 1 (List.map_filter (map_of (chart_row bm attack_type)) defend_types)"
    if "attack_type \<noteq> []"
    using that
    by (simp add: get_type_effectiveness_def chart_row_def foldl_factors map_filter_none)
  show "get_type_effectiveness bn (Some attack_type) defend_types
        = prod_list (map (\<lambda>d. case map_of (chart_row bn attack_type) d of None \<Rightarrow> 1 | Some f \<Rightarrow> f)
            defend_types)"
    if "attack_type \<noteq> []"
    using that
    by (simp add: get_type_effectiveness_def chart_row_def foldl_neutral prod_list_ones)
  show "get_type_effectiveness bm (Some attack_type) defend_types = 1" if "type_chart bm = []"
    using that by (simp add: get_type_effectiveness_def)
  show "get_type_effectiveness bm None defend_types = 1"
    by (simp add: get_type_effectiveness_def)
  show "get_type_effectiveness bm (Some []) defend_types = 1"
    by (simp add: get_type_effectiveness_def)
  show "get_type_effectiveness (battle_manager_init water_chart) (Some ''Water'') [''Fire'', ''Flying'']
       = (2::rat)"
    by (simp add: get_type_effectiveness_def battle_manager_init_def water_chart_def)
qed

theorem type_effectiveness_product_witness:
  "''Water'' \<noteq> []
   \<and> get_type_effectiveness trainer_battle (Some ''Water'') [''Fire'', ''Rock'', ''Grass'']
       = foldl (*) 1 [2, 1 / 2]
   \<and> get_type_effectiveness trainer_battle (Some ''Water'') [''Fire'', ''Rock'', ''Grass'']
       = prod_list [2, 1, 1 / 2]
   \<and> type_chart (battle_manager_init [] :: rat battle_manager) = []
   \<and> get_type_effectiveness (battle_manager_init [] :: rat battle_manager) (Some ''Water'') [''Fire''] = 1"
proof -
  have a: "''Water'' \<noteq> []" by simp
  have b: "List.map_filter (map_of (chart_row trainer_battle ''Water'')) [''Fire'', ''Rock'', ''Grass'']
        = [2, 1 / 2]"
    by (simp add: chart_row_def trainer_battle_def water_chart_def List.map_filter_simps)
  have c: "map (\<lambda>d. case map_of (chart_row trainer_battle ''Water'') d of None \<Rightarrow> 1 | Some f \<Rightarrow> f)
            [''Fire'', ''Rock'', ''Grass''] = [2, 1, 1 / 2]"
    by (simp add: chart_row_def trainer_battle_def water_chart_def)
  have d: "type_chart (battle_manager_init [] :: rat battle_manager) = []"
    by (simp add: battle_manager_init_def)
  from type_effectiveness_product[of "''Water''" trainer_battle "[''Fire'', ''Rock'', ''Grass'']" trainer_battle]
    a b c
  have e: "get_type_effectiveness trainer_battle (Some ''Water'') [''Fire'', ''Rock'', ''Grass'']
       = foldl (*) 1 [2, 1 / 2]
   \<and> get_type_effectiveness trainer_battle (Some ''Water'') [''Fire'', ''Rock'', ''Grass'']
       = prod_list [2, 1, 1 / 2]"
    by simp
  from type_effectiveness_product[of "''Water''" "battle_manager_init [] :: rat battle_manager" "[''Fire'']"
      trainer_battle] d
  have f: "get_type_effectiveness (battle_manager_init [] :: rat battle_manager) (Some ''Water'') [''Fire''] = 1"
    by simp
  from a d e f show ?thesis by simp
qed

lemma consider_move_score:
  "consider_move bm ets best m =
     (case move_score bm ets m of None \<Rightarrow> best
      | Some v \<Rightarrow> if v > snd best then (Some m, v) else best)"
  by (simp add: consider_move_def move_score_def Let_def split: option.splits)

lemma best_loop:
  fixes score :: "'m \<Rightarrow> ('a::linorder) option"
  assumes "foldl (\<lambda>best m. case score m of None \<Rightarrow> best
                  | Some v \<Rightarrow> if v > snd best then (Some m, v) else best) (b0, e0) ms = (b', e')"
  shows "((b', e') = (b0, e0) \<and> (\<forall>m\<in>set ms. \<forall>v. score m = Some v \<longrightarrow> v \<le> e0))
       \<or> (\<exists>pre m post v. ms = pre @ m # post \<and> score m = Some v \<and> b' = Some m \<and> e' = v \<and> e0 < v
             \<and> (\<forall>x\<in>set pre. \<forall>w. score x = Some w \<longrightarrow> w < v)
             \<and> (\<forall>x\<in>set post. \<forall>w. score x = Some w \<longrightarrow> w \<le> v))"
  using assms
proof (induction ms arbitrary: b0 e0)
  case Nil
  then show ?case by simp
next
  case (Cons h ms)
  let ?step = "\<lambda>best m. case score m of None \<Rightarrow> best
                  | Some v \<Rightarrow> if v > snd best then (Some m, v) else best"
  show ?case
  proof (cases "score h")
    case None
    with Cons.prems have "foldl ?step (b0, e0) ms = (b', e')" by simp
    from Cons.IH[OF this] show ?thesis
    proof
      assume "(b', e') = (b0, e0) \<and> (\<forall>m\<in>set ms. \<forall>v. score m = Some v \<longrightarrow> v \<le> e0)"
      with None show ?thesis by simp
    next
      assume "\<exists>pre m post v. ms = pre @ m # post \<and> score m = Some v \<and> b' = Some m \<and> e' = v \<and> e0 < v
             \<and> (\<forall>x\<in>set pre. \<forall>w. score x = Some w \<longrightarrow> w < v)
             \<and> (\<forall>x\<in>set post. \<forall>w. score x = Some w \<longrightarrow> w \<le> v)"
      then obtain pre m post v where *: "ms = pre @ m # post" "score m = Some v" "b' = Some m" "e' = v"
        "e0 < v" "\<forall>x\<in>set pre. \<forall>w. score x = Some w \<longrightarrow> w < v"
        "\<forall>x\<in>set post. \<forall>w. score x = Some w \<longrightarrow> w \<le> v" by blast
      from * None have "h # ms = (h # pre) @ m # post \<and> score m = Some v \<and> b' = Some m \<and> e' = v \<and> e0 < v
             \<and> (\<forall>x\<in>set (h # pre). \<forall>w. score x = Some w \<longrightarrow> w < v)
             \<and> (\<forall>x\<in>set post. \<forall>w. score x = Some w \<longrightarrow> w \<le> v)" by simp
      then show ?thesis by blast
    qed
  next
    case (Some u)
    show ?thesis
    proof (cases "u > e0")
      case False
      with Some Cons.prems have "foldl ?step (b0, e0) ms = (b', e')" by simp
      from Cons.IH[OF this] show ?thesis
      proof
        assume "(b', e') = (b0, e0) \<and> (\<forall>m\<in>set ms. \<forall>v. score m = Some v \<longrightarrow> v \<le> e0)"
        with Some False show ?thesis by auto
      next
        assume "\<exists>pre m post v. ms = pre @ m # post \<and> score m = Some v \<and> b' = Some m \<and> e' = v \<and> e0 < v
             \<and> (\<forall>x\<in>set pre. \<forall>w. score x = Some w \<longrightarrow> w < v)
             \<and> (\<forall>x\<in>set post. \<forall>w. score x = Some w \<longrightarrow> w \<le> v)"
        then obtain pre m post v where *: "ms = pre @ m # post" "score m = Some v" "b' = Some m" "e' = v"
          "e0 < v" "\<forall>x\<in>set pre. \<forall>w. score x = Some w \<longrightarrow> w < v"
          "\<forall>x\<in>set post. \<forall>w. score x = Some w \<longrightarrow> w \<le> v" by blast
        from * Some False have "h # ms = (h # pre) @ m # post \<and> score m = Some v \<and> b' = Some m \<and> e' = v \<and> e0 < v
             \<and> (\<forall>x\<in>set (h # pre). \<forall>w. score x = Some w \<longrightarrow> w < v)
             \<and> (\<forall>x\<in>set post. \<forall>w. score x = Some w \<longrightarrow> w \<le> v)" by auto
        then show ?thesis by blast
      qed
    next
      case True
      with Some Cons.prems have "foldl ?step (Some h, u) ms = (b', e')" by simp
      from Cons.IH[OF this] show ?thesis
      proof
        assume "(b', e') = (Some h, u) \<and> (\<forall>m\<in>set ms. \<forall>v. score m = Some v \<longrightarrow> v \<le> u)"
        with Some True have "h # ms = [] @ h # ms \<and> score h = Some u \<and> b' = Some h \<and> e' = u \<and> e0 < u
             \<and> (\<forall>x\<in>set []. \<forall>w. score x = Some w \<longrightarrow> w < u)
             \<and> (\<forall>x\<in>set ms. \<forall>w. score x = Some w \<longrightarrow> w \<le> u)" by simp
        then show ?thesis by blast
      next
        assume "\<exists>pre m post v. ms = pre @ m # post \<and> score m = Some v \<and> b' = Some m \<and> e' = v \<and> u < v
             \<and> (\<forall>x\<in>set pre. \<forall>w. score x = Some w \<longrightarrow> w < v)
             \<and> (\<forall>x\<in>set post. \<forall>w. score x = Some w \<longrightarrow> w \<le> v)"
        then obtain pre m post v where *: "ms = pre @ m # post" "score m = Some v" "b' = Some m" "e' = v"
          "u < v" "\<forall>x\<in>set pre. \<forall>w. score x = Some w \<longrightarrow> w < v"
          "\<forall>x\<in>set post. \<forall>w. score x = Some w \<longrightarrow> w \<le> v" by blast
        from * Some True have "h # ms = (h # pre) @ m # post \<and> score m = Some v \<and> b' = Some m \<and> e' = v \<and> e0 < v
             \<and> (\<forall>x\<in>set (h # pre). \<forall>w. score x = Some w \<longrightarrow> w < v)
             \<and> (\<forall>x\<in>set post. \<forall>w. score x = Some w \<longrightarrow> w \<le> v)" by auto
        then show ?thesis by blast
      qed
    qed
  qed
qed


lemma effectiveness_no_types:
  "get_type_effectiveness bm atk [] = 1"
  by (simp add: get_type_effectiveness_def)

lemma effectiveness_of_score:
  "move_score bm (case map_of SPECIES_TYPES enemy of None \<Rightarrow> [] | Some ts \<Rightarrow> ts) m = Some v
     \<Longrightarrow> move_effectiveness bm enemy m = v"
  by (auto simp: move_score_def move_effectiveness_def split: if_splits option.splits)

lemma effectiveness_unscored:
  "move_score bm (case map_of SPECIES_TYPES enemy of None \<Rightarrow> [] | Some ts \<Rightarrow> ts) m = None
     \<Longrightarrow> m \<noteq> [] \<Longrightarrow> m \<noteq> ''---'' \<Longrightarrow> move_effectiveness bm enemy m = 1"
  by (auto simp: move_score_def move_effectiveness_def get_type_effectiveness_def
      split: if_splits option.splits)

lemma scored_in_slots:
  "move_score bm ets m = Some v \<Longrightarrow> m \<noteq> [] \<and> m \<noteq> ''---''"
  by (auto simp: move_score_def split: if_splits)

lemma recommend_move_loop:
  "recommend_move fmt bm p enemy =
     (let ets = (case map_of SPECIES_TYPES enemy of None \<Rightarrow> [] | Some ts \<Rightarrow> ts) in
      if ets = [] then None
      else case foldl (\<lambda>best m. case move_score bm ets m of None \<Rightarrow> best
                  | Some v \<Rightarrow> if v > snd best then (Some m, v) else best) (None, 0)
                 (case moves p of None \<Rightarrow> [] | Some ms \<Rightarrow> ms) of
             (None, e) \<Rightarrow> None
           | (Some b, e) \<Rightarrow> if b \<noteq> [] \<and> e > 1 then Some (suggestion fmt b e) else None)"
proof -
  have "consider_move bm ets = (\<lambda>best m. case move_score bm ets m of None \<Rightarrow> best
                  | Some v \<Rightarrow> if v > snd best then (Some m, v) else best)" for ets
    by (intro ext) (rule consider_move_score)
  then show ?thesis
    by (simp add: recommend_move_def Let_def split: prod.splits option.splits)
qed

text \<open>Claim C8. Either no non-empty move slot has an effectiveness above 1 against the
  opponent and \<open>recommend_move\<close> returns none (even when moves exist), or it returns the
  suggestion naming a move and its multiplier, where that move's effectiveness exceeds 1, is
  strictly higher than that of every earlier slot and at least that of every later slot: the
  first move of highest effectiveness.\<close>

theorem recommend_move_best:
  fixes bm :: "'a::{linorder,zero_less_one,times} battle_manager"
  shows "(recommend_move fmt bm p enemy = None
            \<and> (\<forall>m\<in>set (move_slots p). \<not> 1 < move_effectiveness bm enemy m))
       \<or> (\<exists>pre m post. move_slots p = pre @ m # post
            \<and> 1 < move_effectiveness bm enemy m
            \<and> (\<forall>x\<in>set pre. move_effectiveness bm enemy x < move_effectiveness bm enemy m)
            \<and> (\<forall>x\<in>set post. move_effectiveness bm enemy x \<le> move_effectiveness bm enemy m)
            \<and> recommend_move fmt bm p enemy = Some (suggestion fmt m (move_effectiveness bm enemy m)))"
proof -
  define ets where "ets = (case map_of SPECIES_TYPES enemy of None \<Rightarrow> [] | Some ts \<Rightarrow> ts)"
  define ms where "ms = (case moves p of None \<Rightarrow> [] | Some ms \<Rightarrow> ms)"
  define slot where "slot = (\<lambda>m::string. m \<noteq> [] \<and> m \<noteq> ''---'')"
  have slots: "move_slots p = filter slot ms"
    by (simp add: move_slots_def ms_def slot_def)
  have scored: "move_effectiveness bm enemy m = v" if "move_score bm ets m = Some v" for m v
    using that effectiveness_of_score[of bm enemy m v] by (simp add: ets_def)
  have unscored: "move_effectiveness bm enemy m = 1" if "move_score bm ets m = None" "slot m" for m
    using that effectiveness_unscored[of bm enemy m] by (simp add: ets_def slot_def)
  have scored_slot: "slot m" if "move_score bm ets m = Some v" for m v
    using scored_in_slots[OF that] by (simp add: slot_def)
  show ?thesis
  proof (cases "ets = []")
    case True
    then have "move_effectiveness bm enemy m = 1" for m
      by (simp add: move_effectiveness_def ets_def effectiveness_no_types)
    moreover from True have "recommend_move fmt bm p enemy = None"
      by (simp add: recommend_move_loop ets_def)
    ultimately show ?thesis by simp
  next
    case False
    obtain b' e' where fold: "foldl (\<lambda>best m. case move_score bm ets m of None \<Rightarrow> best
                  | Some v \<Rightarrow> if v > snd best then (Some m, v) else best) (None, 0) ms = (b', e')"
      by (cases "foldl (\<lambda>best m. case move_score bm ets m of None \<Rightarrow> best
                  | Some v \<Rightarrow> if v > snd best then (Some m, v) else best) (None, 0::'a) ms") blast
    from False fold have res: "recommend_move fmt bm p enemy =
        (case b' of None \<Rightarrow> None
         | Some b \<Rightarrow> if b \<noteq> [] \<and> e' > 1 then Some (suggestion fmt b e') else None)"
      by (simp add: recommend_move_loop ets_def[symmetric] ms_def[symmetric] split: option.splits)
    from best_loop[OF fold] show ?thesis
    proof
      assume a: "(b', e') = (None, 0) \<and> (\<forall>m\<in>set ms. \<forall>v. move_score bm ets m = Some v \<longrightarrow> v \<le> 0)"
      with res have r: "recommend_move fmt bm p enemy = None" by simp
      have "\<not> 1 < move_effectiveness bm enemy m" if "m \<in> set (move_slots p)" for m
      proof (cases "move_score bm ets m")
        case None
        with that unscored[of m] slots show ?thesis by simp
      next
        case (Some v)
        with a that slots have "v \<le> 0" by auto
        moreover have "(0::'a) < 1" by simp
        ultimately have "\<not> 1 < v" by (meson leD le_less_trans less_imp_le)
        with scored[OF Some] show ?thesis by simp
      qed
      with r show ?thesis by blast
    next
      assume "\<exists>pre m post v. ms = pre @ m # post \<and> move_score bm ets m = Some v \<and> b' = Some m \<and> e' = v
             \<and> 0 < v
             \<and> (\<forall>x\<in>set pre. \<forall>w. move_score bm ets x = Some w \<longrightarrow> w < v)
             \<and> (\<forall>x\<in>set post. \<forall>w. move_score bm ets x = Some w \<longrightarrow> w \<le> v)"
      then obtain pre m post v where *: "ms = pre @ m # post" "move_score bm ets m = Some v"
        "b' = Some m" "e' = v" "0 < v"
        "\<forall>x\<in>set pre. \<forall>w. move_score bm ets x = Some w \<longrightarrow> w < v"
        "\<forall>x\<in>set post. \<forall>w. move_score bm ets x = Some w \<longrightarrow> w \<le> v" by blast
      have effm: "move_effectiveness bm enemy m = v" using scored[OF *(2)] .
      have sm: "slot m" using scored_slot[OF *(2)] .
      then have mne: "m \<noteq> []" by (simp add: slot_def)
      have split: "move_slots p = filter slot pre @ m # filter slot post"
        using slots *(1) sm by simp
      show ?thesis
      proof (cases "1 < v")
        case True
        from res *(3,4) mne True
        have r: "recommend_move fmt bm p enemy = Some (suggestion fmt m (move_effectiveness bm enemy m))"
          by (simp add: effm)
        have pre: "move_effectiveness bm enemy x < move_effectiveness bm enemy m"
          if "x \<in> set (filter slot pre)" for x
        proof (cases "move_score bm ets x")
          case None
          with that unscored[of x] True effm show ?thesis by simp
        next
          case (Some w)
          with that *(6) scored[OF Some] effm show ?thesis by auto
        qed
        have post: "move_effectiveness bm enemy x \<le> move_effectiveness bm enemy m"
          if "x \<in> set (filter slot post)" for x
        proof (cases "move_score bm ets x")
          case None
          with that unscored[of x] True effm show ?thesis by simp
        next
          case (Some w)
          with that *(7) scored[OF Some] effm show ?thesis by auto
        qed
        from split True effm pre post r show ?thesis by blast
      next
        case False
        from res *(3,4) False have r: "recommend_move fmt bm p enemy = None" by simp
        have "\<not> 1 < move_effectiveness bm enemy x" if "x \<in> set (move_slots p)" for x
        proof (cases "move_score bm ets x")
          case None
          with that unscored[of x] slots show ?thesis by simp
        next
          case (Some w)
          from that split have "x \<in> set pre \<or> x = m \<or> x \<in> set post" by auto
          with Some *(2,6,7) have "w \<le> v" by auto
          with False have "\<not> 1 < w" by auto
          with scored[OF Some] show ?thesis by simp
        qed
        with r show ?thesis by blast
      qed
    qed
  qed
qed

theorem recommend_move_best_witness:
  "move_slots squirtle = [''Tackle'', ''Surf'', ''Bubble'']
   \<and> move_effectiveness trainer_battle ''Charizard'' ''Tackle'' = 1
   \<and> move_effectiveness trainer_battle ''Charizard'' ''Surf'' = 2
   \<and> move_effectiveness trainer_battle ''Charizard'' ''Bubble'' = 2
   \<and> recommend_move (\<lambda>x. ''2.0'') trainer_battle squirtle ''Charizard''
       = Some ''Use Surf (super effective x2.0!)''
   \<and> move_effectiveness trainer_battle ''Vileplume'' ''Surf'' = 1 / 2
   \<and> recommend_move (\<lambda>x. ''2.0'') trainer_battle squirtle ''Vileplume'' = None"
proof -
  have slots: "move_slots squirtle = [''Tackle'', ''Surf'', ''Bubble'']" by code_simp
  have e1: "move_effectiveness trainer_battle ''Charizard'' ''Tackle'' = 1" by code_simp
  have e2: "move_effectiveness trainer_battle ''Charizard'' ''Surf'' = 2" by code_simp
  have e3: "move_effectiveness trainer_battle ''Charizard'' ''Bubble'' = 2" by code_simp
  have f1: "move_effectiveness trainer_battle ''Vileplume'' ''Tackle'' = 1" by code_simp
  have f2: "move_effectiveness trainer_battle ''Vileplume'' ''Surf'' = 1 / 2" by code_simp
  have f3: "move_effectiveness trainer_battle ''Vileplume'' ''Bubble'' = 1 / 2" by code_simp
  have s: "suggestion (\<lambda>x. ''2.0'') ''Surf'' (2::rat) = ''Use Surf (super effective x2.0!)''"
    by (simp add: suggestion_def)
  from recommend_move_best[of "\<lambda>x. ''2.0''" trainer_battle squirtle "''Charizard''"]
  have a: "recommend_move (\<lambda>x. ''2.0'') trainer_battle squirtle ''Charizard''
       = Some ''Use Surf (super effective x2.0!)''"
    unfolding slots using e1 e2 e3 s
    by (auto simp: Cons_eq_append_conv)
  from recommend_move_best[of "\<lambda>x. ''2.0''" trainer_battle squirtle "''Vileplume''"]
  have b: "recommend_move (\<lambda>x. ''2.0'') trainer_battle squirtle ''Vileplume'' = None"
    unfolding slots using f1 f2 f3
    by (auto simp: Cons_eq_append_conv)
  from slots e1 e2 e3 f2 a b show ?thesis by simp
qed

section \<open>Goal planner: properties\<close>

declare complete_goal.simps [simp del]

lemma lookup_save [simp]: "lookup (save pl) = lookup pl"
  by (simp add: lookup_def save_def fun_eq_iff)

lemma goals_save [simp]: "goals (save pl) = goals pl"
  by (simp add: save_def)

lemma lookup_update [simp]:
  "lookup (pl\<lparr>goals := AList.update k v (goals pl)\<rparr>) x = (if x = k then Some v else lookup pl x)"
  by (simp add: lookup_def update_conv')

lemma fail_goal_present:
  assumes "lookup pl gid = Some g"
  shows "lookup (fail_goal pl gid reason) gid =
           Some (if attempts g + 1 \<ge> max_attempts g
                 then g\<lparr>attempts := attempts g + 1, status := FAILED,
                        notes := notes g @ [''Failed permanently: '' @ reason]\<rparr>
                 else g\<lparr>attempts := attempts g + 1, status := PENDING,
                        notes := notes g @ [''Attempt '' @ str_int (attempts g + 1) @ '' failed: '' @ reason]\<rparr>)"
  using assms by (simp add: fail_goal_def Let_def)

lemma fail_goal_fold:
  assumes "lookup pl gid = Some g"
  shows "\<exists>g'. lookup (fold (\<lambda>reason p. fail_goal p gid reason) reasons pl) gid = Some g'
           \<and> attempts g' = attempts g + int (length reasons)
           \<and> max_attempts g' = max_attempts g
           \<and> (reasons \<noteq> [] \<longrightarrow> status g' = (if attempts g' \<ge> max_attempts g' then FAILED else PENDING))"
  using assms
proof (induction reasons arbitrary: pl g rule: rev_induct)
  case Nil
  then show ?case by simp
next
  case (snoc r rs)
  from snoc.IH[OF snoc.prems] obtain g1 where
    g1: "lookup (fold (\<lambda>reason p. fail_goal p gid reason) rs pl) gid = Some g1"
      "attempts g1 = attempts g + int (length rs)" "max_attempts g1 = max_attempts g"
    by blast
  from fail_goal_present[OF g1(1), of r] g1(2,3) show ?case by simp
qed

text \<open>Claim C3. For a goal present in the tree, a call of \<open>fail_goal\<close> on it adds exactly 1
  to its attempts, and leaves it failed if the attempts have reached \<open>max_attempts\<close> and
  pending otherwise. So after any number of calls in a row the attempts have grown by that
  number, and the status is failed from the call on which the attempts reach the bound and
  pending after every earlier call.\<close>

theorem fail_goal_attempts:
  assumes "lookup pl gid = Some g"
  shows "(\<exists>g'. lookup (fail_goal pl gid reason) gid = Some g'
            \<and> attempts g' = attempts g + 1
            \<and> status g' = (if attempts g' \<ge> max_attempts g then FAILED else PENDING))
       \<and> (\<exists>g'. lookup (fold (\<lambda>reason p. fail_goal p gid reason) reasons pl) gid = Some g'
            \<and> attempts g' = attempts g + int (length reasons)
            \<and> (reasons \<noteq> [] \<longrightarrow> status g' = (if attempts g' \<ge> max_attempts g then FAILED else PENDING)))"
proof
  from fail_goal_present[OF assms, of reason]
  show "\<exists>g'. lookup (fail_goal pl gid reason) gid = Some g'
            \<and> attempts g' = attempts g + 1
            \<and> status g' = (if attempts g' \<ge> max_attempts g then FAILED else PENDING)"
    by simp
  from fail_goal_fold[OF assms, of reasons]
  show "\<exists>g'. lookup (fold (\<lambda>reason p. fail_goal p gid reason) reasons pl) gid = Some g'
            \<and> attempts g' = attempts g + int (length reasons)
            \<and> (reasons \<noteq> [] \<longrightarrow> status g' = (if attempts g' \<ge> max_attempts g then FAILED else PENDING))"
    by auto
qed

theorem fail_goal_attempts_witness:
  "lookup c3_planner ''goal_1'' = Some c3_goal
   \<and> map_option attempts (lookup (fail_goal c3_planner ''goal_1'' ''lost'') ''goal_1'') = Some 9
   \<and> map_option status (lookup (fail_goal c3_planner ''goal_1'' ''lost'') ''goal_1'') = Some PENDING
   \<and> map_option attempts (lookup (fold (\<lambda>reason p. fail_goal p ''goal_1'' reason) [''lost'', ''lost again''] c3_planner)
        ''goal_1'') = Some 10
   \<and> map_option status (lookup (fold (\<lambda>reason p. fail_goal p ''goal_1'' reason) [''lost'', ''lost again''] c3_planner)
        ''goal_1'') = Some FAILED"
proof -
  have h: "lookup c3_planner ''goal_1'' = Some c3_goal"
    by (simp add: lookup_def c3_planner_def)
  have v: "attempts c3_goal = 8" "max_attempts c3_goal = 10"
    by (simp_all add: c3_goal_def)
  from fail_goal_attempts[OF h, of "''lost''" "[''lost'', ''lost again'']"] v
  have "map_option attempts (lookup (fail_goal c3_planner ''goal_1'' ''lost'') ''goal_1'') = Some 9
   \<and> map_option status (lookup (fail_goal c3_planner ''goal_1'' ''lost'') ''goal_1'') = Some PENDING
   \<and> map_option attempts (lookup (fold (\<lambda>reason p. fail_goal p ''goal_1'' reason) [''lost'', ''lost again''] c3_planner)
        ''goal_1'') = Some 10
   \<and> map_option status (lookup (fold (\<lambda>reason p. fail_goal p ''goal_1'' reason) [''lost'', ''lost again''] c3_planner)
        ''goal_1'') = Some FAILED"
    by auto
  with h show ?thesis by simp
qed

text \<open>Claim C10. For a goal id that is not in the tree, \<open>complete_goal\<close>, \<open>fail_goal\<close> and
  \<open>block_goal\<close> return without raising and leave the planner as it was: the goals, the
  counter and the saved document.\<close>

theorem absent_goal_untouched:
  assumes "lookup pl gid = None"
  shows "complete_goal depth pl gid note clock = Some pl
       \<and> fail_goal pl gid reason = pl
       \<and> block_goal pl gid reason = pl"
  using assms by (simp add: complete_goal.simps fail_goal_def block_goal_def)

theorem absent_goal_untouched_witness:
  "lookup c3_planner ''goal_7'' = None
   \<and> complete_goal 0 c3_planner ''goal_7'' ''done'' (\<lambda>k. 0) = Some c3_planner
   \<and> fail_goal c3_planner ''goal_7'' ''lost'' = c3_planner
   \<and> block_goal c3_planner ''goal_7'' ''no badge'' = c3_planner"
proof -
  have h: "lookup c3_planner ''goal_7'' = None"
    by (simp add: lookup_def c3_planner_def)
  from absent_goal_untouched[OF h] h show ?thesis by simp
qed

lemma set_update_cases:
  "(a, b) \<in> set (AList.update k v al) \<Longrightarrow> (a, b) = (k, v) \<or> (a, b) \<in> set al"
  by (induction al) (auto split: if_splits)

lemma ids_consistentD:
  "ids_consistent pl \<Longrightarrow> lookup pl k = Some g \<Longrightarrow> goal_id g = k"
  by (auto simp: ids_consistent_def lookup_def list_all_iff dest: map_of_SomeD)

lemma rankedD:
  "ranked rank pl \<Longrightarrow> lookup pl k = Some g \<Longrightarrow> parent_id g = Some p \<Longrightarrow> lookup pl p \<noteq> None
     \<Longrightarrow> rank p < rank k"
proof -
  assume r: "ranked rank pl" and l: "lookup pl k = Some g" and p: "parent_id g = Some p"
    and n: "lookup pl p \<noteq> None"
  from l have "(k, g) \<in> set (goals pl)" by (auto simp: lookup_def dest: map_of_SomeD)
  with r have "case parent_id g of None \<Rightarrow> True | Some p \<Rightarrow> lookup pl p \<noteq> None \<longrightarrow> rank p < rank k"
    by (auto simp: ranked_def list_all_iff)
  with p n show ?thesis by simp
qed

lemma same_but_completion_refl: "same_but_completion g g"
  by (simp add: same_but_completion_def)

lemma same_but_completion_trans:
  "same_but_completion a b \<Longrightarrow> same_but_completion b c \<Longrightarrow> same_but_completion a c"
  by (simp add: same_but_completion_def)

lemma same_but_completion_mark: "same_but_completion g (mark_completed g nt now)"
  by (simp add: same_but_completion_def mark_completed_def)

lemma stable_refl: "stable pl pl"
  by (auto simp: stable_def same_but_completion_refl split: option.splits)

lemma stableD:
  "stable pl pl' \<Longrightarrow> lookup pl k = Some g \<Longrightarrow>
     \<exists>g'. lookup pl' k = Some g' \<and> same_but_completion g g'
          \<and> (status g = COMPLETED \<longrightarrow> status g' = COMPLETED)"
  unfolding stable_def by (erule allE[of _ k]) simp

lemma stable_NoneD: "stable pl pl' \<Longrightarrow> lookup pl k = None \<Longrightarrow> lookup pl' k = None"
  unfolding stable_def by (erule allE[of _ k]) simp

lemma stable_trans:
  assumes ab: "stable a b" and bc: "stable b c"
  shows "stable a c"
  unfolding stable_def
proof (intro allI)
  fix k
  show "case lookup a k of None \<Rightarrow> lookup c k = None
           | Some g \<Rightarrow> (\<exists>g'. lookup c k = Some g' \<and> same_but_completion g g'
                           \<and> (status g = COMPLETED \<longrightarrow> status g' = COMPLETED))"
  proof (cases "lookup a k")
    case None
    from stable_NoneD[OF bc stable_NoneD[OF ab None]] None show ?thesis by simp
  next
    case (Some g)
    from stableD[OF ab Some] obtain g1 where g1: "lookup b k = Some g1" "same_but_completion g g1"
      "status g = COMPLETED \<longrightarrow> status g1 = COMPLETED" by blast
    from stableD[OF bc g1(1)] obtain g2 where g2: "lookup c k = Some g2" "same_but_completion g1 g2"
      "status g1 = COMPLETED \<longrightarrow> status g2 = COMPLETED" by blast
    from g1 g2 same_but_completion_trans[OF g1(2) g2(2)] Some show ?thesis by simp
  qed
qed

lemma stable_save: "stable pl (save pl)"
  by (auto simp: stable_def same_but_completion_refl split: option.splits)

lemma stable_mark:
  "lookup pl gid = Some g \<Longrightarrow>
     stable pl (pl\<lparr>goals := AList.update gid (mark_completed g nt now) (goals pl)\<rparr>)"
proof -
  assume g: "lookup pl gid = Some g"
  have "mark_completed g nt now = g\<lparr>status := COMPLETED, completed_at := Some now,
       notes := (if nt \<noteq> [] then notes g @ [''Completed: '' @ nt] else notes g)\<rparr>"
    by (simp add: mark_completed_def)
  moreover have "status (mark_completed g nt now) = COMPLETED" by (simp add: mark_completed_def)
  ultimately show ?thesis
    using g same_but_completion_mark[of g nt now]
    by (auto simp: stable_def same_but_completion_refl split: option.splits)
qed

lemma stable_completed: "stable pl pl' \<Longrightarrow> completed pl k \<Longrightarrow> completed pl' k"
  unfolding completed_def
  by (cases "lookup pl k") (auto dest: stableD)

lemma children_completed_stable:
  assumes "stable pl pl'" "children_completed pl parent" "children_ids parent' = children_ids parent"
  shows "children_completed pl' parent'"
  unfolding children_completed_def list_all_iff
proof (intro ballI)
  fix cid assume "cid \<in> set (children_ids parent')"
  with assms(2,3) have c: "case lookup pl cid of None \<Rightarrow> True | Some c \<Rightarrow> status c = COMPLETED"
    by (simp add: children_completed_def list_all_iff)
  show "case lookup pl' cid of None \<Rightarrow> True | Some c \<Rightarrow> status c = COMPLETED"
  proof (cases "lookup pl cid")
    case None
    from stable_NoneD[OF assms(1) None] show ?thesis by simp
  next
    case (Some c0)
    with c stableD[OF assms(1) Some] show ?thesis by auto
  qed
qed

lemma ids_consistent_mark:
  assumes "ids_consistent pl" "lookup pl gid = Some g"
  shows "ids_consistent (pl\<lparr>goals := AList.update gid (mark_completed g note now) (goals pl)\<rparr>)"
proof -
  from assms have "goal_id g = gid" by (rule ids_consistentD)
  then have "goal_id (mark_completed g note now) = gid" by (simp add: mark_completed_def)
  with assms(1) show ?thesis
    by (auto simp: ids_consistent_def list_all_iff dest!: set_update_cases)
qed

lemma ranked_mark:
  assumes "ranked rank pl" "lookup pl gid = Some g"
  shows "ranked rank (pl\<lparr>goals := AList.update gid (mark_completed g note now) (goals pl)\<rparr>)"
  unfolding ranked_def list_all_iff
proof (intro ballI)
  fix e
  assume mem: "e \<in> set (goals (pl\<lparr>goals := AList.update gid (mark_completed g note now) (goals pl)\<rparr>))"
  obtain k h where e: "e = (k, h)" by (cases e)
  from mem have kh: "(k, h) \<in> set (AList.update gid (mark_completed g note now) (goals pl))"
    unfolding e by simp
  have dom: "lookup (pl\<lparr>goals := AList.update gid (mark_completed g note now) (goals pl)\<rparr>) p \<noteq> None
      \<longleftrightarrow> lookup pl p \<noteq> None" for p
    using assms(2) by simp
  from set_update_cases[OF kh] have "case parent_id h of None \<Rightarrow> True
     | Some p \<Rightarrow> lookup pl p \<noteq> None \<longrightarrow> rank p < rank k"
  proof
    assume "(k, h) = (gid, mark_completed g note now)"
    then have "k = gid" "parent_id h = parent_id g" by (simp_all add: mark_completed_def)
    with rankedD[OF assms] show ?thesis by (auto split: option.splits)
  next
    assume "(k, h) \<in> set (goals pl)"
    with assms(1) show ?thesis by (auto simp: ranked_def list_all_iff)
  qed
  then show "case e of (k, g') \<Rightarrow> case parent_id g' of None \<Rightarrow> True
     | Some p \<Rightarrow> lookup (pl\<lparr>goals := AList.update gid (mark_completed g note now) (goals pl)\<rparr>) p \<noteq> None
         \<longrightarrow> rank p < rank k"
    using dom by (auto simp: e split: option.splits)
qed

lemma complete_goal_absent:
  "lookup pl gid = None \<Longrightarrow> complete_goal depth pl gid note clock = Some pl"
  by (simp add: complete_goal.simps)

lemma complete_goal_stop:
  assumes "lookup pl gid = Some g"
    and "parent_to_complete (pl\<lparr>goals := AList.update gid (mark_completed g note (clock 0)) (goals pl)\<rparr>)
           (mark_completed g note (clock 0)) = None"
  shows "complete_goal depth pl gid note clock
           = Some (save (pl\<lparr>goals := AList.update gid (mark_completed g note (clock 0)) (goals pl)\<rparr>))"
  using assms by (simp add: complete_goal.simps[of depth] mark_completed_def Let_def)

lemma complete_goal_up:
  assumes "lookup pl gid = Some g"
    and "parent_to_complete (pl\<lparr>goals := AList.update gid (mark_completed g note (clock 0)) (goals pl)\<rparr>)
           (mark_completed g note (clock 0)) = Some pid"
  shows "complete_goal (Suc d) pl gid note clock
           = map_option save
               (complete_goal d (pl\<lparr>goals := AList.update gid (mark_completed g note (clock 0)) (goals pl)\<rparr>)
                  pid ''All sub-goals completed'' (\<lambda>k. clock (Suc k)))"
  using assms
  by (simp add: complete_goal.simps[of "Suc d"] mark_completed_def Let_def split: option.splits)

lemma parent_to_complete_Some:
  "parent_to_complete pl g = Some pid \<longleftrightarrow>
     (\<exists>p parent. parent_id g = Some p \<and> p \<noteq> [] \<and> lookup pl p = Some parent
        \<and> children_completed pl parent \<and> pid = goal_id parent)"
  by (auto simp: parent_to_complete_def truthy_def children_completed_def split: option.splits)

lemma cascades_lookup_eq:
  assumes "lookup pl' = lookup pl" "cascades pl gid x"
  shows "cascades pl' gid x"
  using assms(2)
proof (induction rule: cascades.induct)
  case cascades_self
  then show ?case by (rule cascades.cascades_self)
next
  case (cascades_up x g p parent)
  from cascades_up.hyps(6) assms(1) have "children_completed pl' parent"
    by (simp add: children_completed_def)
  with cascades_up.IH cascades_up.hyps(2-5) assms(1) show ?case
    by (auto intro: cascades.cascades_up)
qed

lemma cascades_stop:
  assumes "lookup pl gid = Some g" "parent_to_complete pl g = None" "cascades pl gid x"
  shows "x = gid"
  using assms(3)
proof (induction rule: cascades.induct)
  case cascades_self
  then show ?case by simp
next
  case (cascades_up x h p parent)
  with assms(1) have "parent_to_complete pl g = Some (goal_id parent)"
    by (auto simp: parent_to_complete_Some)
  with assms(2) show ?case by simp
qed

lemma cascades_split:
  assumes "lookup pl gid = Some g" "parent_id g = Some p" "cascades pl gid x"
  shows "x = gid \<or> cascades pl p x"
  using assms(3)
proof (induction rule: cascades.induct)
  case cascades_self
  then show ?case by simp
next
  case (cascades_up x h q parent)
  from cascades_up.IH show ?case
  proof
    assume "x = gid"
    with cascades_up.hyps(2,3) assms(1,2) have "q = p" by simp
    then show ?thesis by (auto intro: cascades.cascades_self)
  next
    assume "cascades pl p x"
    from cascades.cascades_up[OF this cascades_up.hyps(2-6)] show ?thesis by simp
  qed
qed


lemma complete_goal_exhausted:
  assumes "lookup pl gid = Some g"
    and "parent_to_complete (pl\<lparr>goals := AList.update gid (mark_completed g note (clock 0)) (goals pl)\<rparr>)
           (mark_completed g note (clock 0)) = Some pid"
  shows "complete_goal 0 pl gid note clock = None"
  using assms by (simp add: complete_goal.simps[of 0] mark_completed_def Let_def)

lemma cascades_trans:
  assumes "cascades pl a b" "cascades pl b c"
  shows "cascades pl a c"
  using assms(2,1)
proof (induction rule: cascades.induct)
  case cascades_self
  then show ?case .
next
  case (cascades_up x g p parent)
  from cascades.cascades_up[OF cascades_up.IH[OF cascades_up.prems] cascades_up.hyps(2-6)]
  show ?case .
qed

lemma complete_goal_cascade_aux:
  assumes "ids_consistent pl" "ranked rank pl" "rank gid \<le> depth" "lookup pl gid \<noteq> None"
  shows "\<exists>pl'. complete_goal depth pl gid note clock = Some pl' \<and> stable pl pl'
           \<and> (\<forall>x. cascades pl' gid x \<longrightarrow> completed pl' x)
           \<and> (\<forall>x. \<not> cascades pl' gid x \<longrightarrow> lookup pl' x = lookup pl x)"
  using assms
proof (induction depth arbitrary: pl gid "note" clock)
  case 0
  from "0.prems"(4) obtain g where g: "lookup pl gid = Some g" by blast
  let ?g' = "mark_completed g note (clock 0)"
  let ?pl1 = "pl\<lparr>goals := AList.update gid ?g' (goals pl)\<rparr>"
  have l1: "lookup ?pl1 gid = Some ?g'" by simp
  have c1: "completed ?pl1 gid" by (simp add: completed_def mark_completed_def)
  show ?case
  proof (cases "parent_to_complete ?pl1 ?g'")
    case None
    have eq: "complete_goal 0 pl gid note clock = Some (save ?pl1)"
      by (rule complete_goal_stop[where clock = clock, OF g None])
    have st: "stable pl (save ?pl1)"
      by (rule stable_trans[OF stable_mark[OF g] stable_save])
    have "completed (save ?pl1) x" if "cascades (save ?pl1) gid x" for x
    proof -
      from that have "cascades ?pl1 gid x" by (rule cascades_lookup_eq[rotated]) simp
      from cascades_stop[OF l1 None this] c1 show ?thesis by (simp add: completed_def)
    qed
    moreover have "lookup (save ?pl1) x = lookup pl x" if "\<not> cascades (save ?pl1) gid x" for x
    proof -
      from that have "x \<noteq> gid" by (auto intro: cascades_self)
      then show ?thesis by simp
    qed
    ultimately show ?thesis using eq st by blast
  next
    case (Some pid)
    then obtain p parent where p: "parent_id ?g' = Some p" "p \<noteq> []" "lookup ?pl1 p = Some parent"
      by (auto simp: parent_to_complete_Some)
    from rankedD[OF ranked_mark[OF "0.prems"(2) g] l1 p(1)] p(3) have "rank p < rank gid" by simp
    with "0.prems"(3) show ?thesis by simp
  qed
next
  case (Suc d)
  from Suc.prems(4) obtain g where g: "lookup pl gid = Some g" by blast
  let ?g' = "mark_completed g note (clock 0)"
  let ?pl1 = "pl\<lparr>goals := AList.update gid ?g' (goals pl)\<rparr>"
  have l1: "lookup ?pl1 gid = Some ?g'" by simp
  have c1: "completed ?pl1 gid" by (simp add: completed_def mark_completed_def)
  have st1: "stable pl ?pl1" by (rule stable_mark[OF g])
  show ?case
  proof (cases "parent_to_complete ?pl1 ?g'")
    case None
    have eq: "complete_goal (Suc d) pl gid note clock = Some (save ?pl1)"
      by (rule complete_goal_stop[where clock = clock, OF g None])
    have st: "stable pl (save ?pl1)"
      by (rule stable_trans[OF st1 stable_save])
    have "completed (save ?pl1) x" if "cascades (save ?pl1) gid x" for x
    proof -
      from that have "cascades ?pl1 gid x" by (rule cascades_lookup_eq[rotated]) simp
      from cascades_stop[OF l1 None this] c1 show ?thesis by (simp add: completed_def)
    qed
    moreover have "lookup (save ?pl1) x = lookup pl x" if "\<not> cascades (save ?pl1) gid x" for x
    proof -
      from that have "x \<noteq> gid" by (auto intro: cascades_self)
      then show ?thesis by simp
    qed
    ultimately show ?thesis using eq st by blast
  next
    case (Some pid)
    then obtain p parent where p: "parent_id ?g' = Some p" "p \<noteq> []" "lookup ?pl1 p = Some parent"
      "pid = goal_id parent" "children_completed ?pl1 parent"
      by (auto simp: parent_to_complete_Some)
    have ids1: "ids_consistent ?pl1" by (rule ids_consistent_mark[OF Suc.prems(1) g])
    have rk1: "ranked rank ?pl1" by (rule ranked_mark[OF Suc.prems(2) g])
    from ids_consistentD[OF ids1 p(3)] p(4) have pid: "pid = p" by simp
    from rankedD[OF rk1 l1 p(1)] p(3) have "rank p < rank gid" by simp
    with Suc.prems(3) have rp: "rank p \<le> d" by simp
    from p(3) have pp: "lookup ?pl1 p \<noteq> None" by simp
    from Suc.IH[OF ids1 rk1 rp pp, of "''All sub-goals completed''" "\<lambda>k. clock (Suc k)"]
    obtain pl2 where pl2: "complete_goal d ?pl1 p ''All sub-goals completed'' (\<lambda>k. clock (Suc k)) = Some pl2"
      "stable ?pl1 pl2" "\<forall>x. cascades pl2 p x \<longrightarrow> completed pl2 x"
      "\<forall>x. \<not> cascades pl2 p x \<longrightarrow> lookup pl2 x = lookup ?pl1 x" by blast
    have eq: "complete_goal (Suc d) pl gid note clock = Some (save pl2)"
      using complete_goal_up[where clock = clock and d = d, OF g Some] pl2(1) pid by simp
    have st: "stable pl (save pl2)"
      by (rule stable_trans[OF st1 stable_trans[OF pl2(2) stable_save]])
    from stableD[OF pl2(2) l1] p(1) obtain g2 where g2: "lookup pl2 gid = Some g2" "parent_id g2 = Some p"
      by (auto simp: same_but_completion_def)
    from stableD[OF pl2(2) p(3)] obtain parent2 where parent2: "lookup pl2 p = Some parent2"
      "children_ids parent2 = children_ids parent"
      by (auto simp: same_but_completion_def)
    have cc2: "children_completed pl2 parent2"
      by (rule children_completed_stable[OF pl2(2) p(5) parent2(2)])
    have up: "cascades pl2 gid p"
      by (rule cascades_up[OF cascades_self g2 p(2) parent2(1) cc2])
    have "completed (save pl2) x" if "cascades (save pl2) gid x" for x
    proof -
      from that have "cascades pl2 gid x" by (rule cascades_lookup_eq[rotated]) simp
      from cascades_split[OF g2 this] show ?thesis
      proof
        assume "x = gid"
        with stable_completed[OF pl2(2) c1] show ?thesis by (simp add: completed_def)
      next
        assume "cascades pl2 p x"
        with pl2(3) show ?thesis by (simp add: completed_def)
      qed
    qed
    moreover have "lookup (save pl2) x = lookup pl x" if nc: "\<not> cascades (save pl2) gid x" for x
    proof -
      have a: "\<not> cascades pl2 gid x"
      proof
        assume "cascades pl2 gid x"
        then have "cascades (save pl2) gid x" by (rule cascades_lookup_eq[rotated]) simp
        with nc show False ..
      qed
      then have "x \<noteq> gid" by (auto intro: cascades_self)
      moreover from a have "\<not> cascades pl2 p x" using cascades_trans[OF up] by blast
      ultimately show ?thesis using pl2(4) by simp
    qed
    ultimately show ?thesis using eq st by blast
  qed
qed

lemma complete_goal_self_parent:
  assumes "lookup pl k = Some g" "parent_id g = Some k" "k \<noteq> []" "children_ids g = [k]" "goal_id g = k"
  shows "complete_goal d pl k note clock = None"
  using assms
proof (induction d arbitrary: pl g "note" clock)
  case 0
  let ?g' = "mark_completed g note (clock 0)"
  let ?pl1 = "pl\<lparr>goals := AList.update k ?g' (goals pl)\<rparr>"
  from "0.prems" have "parent_to_complete ?pl1 ?g' = Some k"
    by (simp add: parent_to_complete_Some children_completed_def mark_completed_def)
  from complete_goal_exhausted[where clock = clock, OF "0.prems"(1) this] show ?case .
next
  case (Suc d)
  let ?g' = "mark_completed g note (clock 0)"
  let ?pl1 = "pl\<lparr>goals := AList.update k ?g' (goals pl)\<rparr>"
  from Suc.prems have pc: "parent_to_complete ?pl1 ?g' = Some k"
    by (simp add: parent_to_complete_Some children_completed_def mark_completed_def)
  have "complete_goal d ?pl1 k ''All sub-goals completed'' (\<lambda>i. clock (Suc i)) = None"
    by (rule Suc.IH[of ?pl1 ?g']) (use Suc.prems in \<open>simp_all add: mark_completed_def\<close>)
  with complete_goal_up[where clock = clock and d = d, OF Suc.prems(1) pc] show ?case by simp
qed

text \<open>Claim C4, amended. Let every goal of the tree be stored under its own id, let the
  parent references form a forest (a rank decreases from each goal to its parent), and let
  the interpreter allow at least as many nested calls as the rank of the goal. Then
  \<open>complete_goal\<close> on a goal of the tree returns, and in the tree it returns:
  the shape is kept (the same ids are present, every goal keeps its id, parent, children and
  all but its status, completion time and notes, and a completed goal stays completed);
  every goal the completion cascades to is completed, that is the goal itself and,
  transitively, each parent whose children present in the tree are then all completed;
  and every other goal is exactly as it was.\<close>

theorem complete_goal_cascade:
  assumes "lookup pl gid \<noteq> None" and "ids_consistent pl" and "ranked rank pl" and "rank gid \<le> depth"
  shows "\<exists>pl'. complete_goal depth pl gid note clock = Some pl'
           \<and> stable pl pl'
           \<and> (\<forall>x. cascades pl' gid x \<longrightarrow> map_option status (lookup pl' x) = Some COMPLETED)
           \<and> (\<forall>x. \<not> cascades pl' gid x \<longrightarrow> lookup pl' x = lookup pl x)"
  using complete_goal_cascade_aux[OF assms(2,3,4,1), of "note" clock]
  by (auto simp: completed_def)

theorem complete_goal_cascade_witness:
  "run 0 c4_calls planner_init = Some c4_planner
   \<and> lookup c4_planner ''goal_3'' \<noteq> None \<and> ids_consistent c4_planner \<and> ranked c4_rank c4_planner
   \<and> c4_rank ''goal_3'' \<le> 2
   \<and> complete_goal 2 c4_planner ''goal_3'' ''trained'' (\<lambda>k. 0) = Some c4_after
   \<and> stable c4_planner c4_after
   \<and> map_option status (lookup c4_planner ''goal_2'') = Some PENDING
   \<and> map_option status (lookup c4_planner ''goal_1'') = Some PENDING
   \<and> cascades c4_after ''goal_3'' ''goal_2'' \<and> cascades c4_after ''goal_3'' ''goal_1''
   \<and> map_option status (lookup c4_after ''goal_3'') = Some COMPLETED
   \<and> map_option status (lookup c4_after ''goal_2'') = Some COMPLETED
   \<and> map_option status (lookup c4_after ''goal_1'') = Some COMPLETED"
proof -
  have h0: "run 0 c4_calls planner_init = Some c4_planner" by code_simp
  have h1: "lookup c4_planner ''goal_3'' \<noteq> None" by code_simp
  have h2: "ids_consistent c4_planner" by code_simp
  have h3: "ranked c4_rank c4_planner" by code_simp
  have h4: "c4_rank ''goal_3'' \<le> 2" by code_simp
  have eq: "complete_goal 2 c4_planner ''goal_3'' ''trained'' (\<lambda>k. 0) = Some c4_after" by code_simp
  have before: "map_option status (lookup c4_planner ''goal_2'') = Some PENDING"
    "map_option status (lookup c4_planner ''goal_1'') = Some PENDING" by code_simp+
  have g3: "lookup c4_after ''goal_3'' = Some (the (lookup c4_after ''goal_3''))"
    "parent_id (the (lookup c4_after ''goal_3'')) = Some ''goal_2''" by code_simp+
  have g2: "lookup c4_after ''goal_2'' = Some (the (lookup c4_after ''goal_2''))"
    "parent_id (the (lookup c4_after ''goal_2'')) = Some ''goal_1''"
    "children_completed c4_after (the (lookup c4_after ''goal_2''))" by code_simp+
  have g1: "lookup c4_after ''goal_1'' = Some (the (lookup c4_after ''goal_1''))"
    "children_completed c4_after (the (lookup c4_after ''goal_1''))" by code_simp+
  have c2: "cascades c4_after ''goal_3'' ''goal_2''"
    by (rule cascades_up[OF cascades_self g3 _ g2(1,3)]) simp
  have c1: "cascades c4_after ''goal_3'' ''goal_1''"
    by (rule cascades_up[OF c2 g2(1,2) _ g1]) simp
  from complete_goal_cascade[OF h1 h2 h3 h4, of "''trained''" "\<lambda>k. 0"] eq
  have all: "\<forall>x. cascades c4_after ''goal_3'' x \<longrightarrow> map_option status (lookup c4_after x) = Some COMPLETED"
    by simp
  from complete_goal_cascade[OF h1 h2 h3 h4, of "''trained''" "\<lambda>k. 0"] eq
  have st: "stable c4_planner c4_after" by simp
  from all c2 c1 cascades_self[of c4_after "''goal_3''"]
  have "map_option status (lookup c4_after ''goal_3'') = Some COMPLETED
   \<and> map_option status (lookup c4_after ''goal_2'') = Some COMPLETED
   \<and> map_option status (lookup c4_after ''goal_1'') = Some COMPLETED" by blast
  with h0 h1 h2 h3 h4 eq st before c2 c1 show ?thesis by simp
qed

text \<open>Claim C4 as stated fails: one \<open>add_goal\<close> call on the empty tree with parent
  \<open>goal_1\<close> creates \<open>goal_1\<close> as its own parent and its own child, since the parent is
  looked up after the goal is stored. Completing it makes every child of that parent
  completed, and \<open>complete_goal\<close> calls itself on the same goal until the nested calls
  allowed are used up: the call raises \<open>RecursionError\<close> instead of returning, here with
  1000 nested calls allowed.\<close>

theorem complete_goal_self_parent_raises:
  "run 0 c4_self_calls planner_init = Some c4_self_parent
   \<and> map_option parent_id (lookup c4_self_parent ''goal_1'') = Some (Some ''goal_1'')
   \<and> map_option children_ids (lookup c4_self_parent ''goal_1'') = Some [''goal_1'']
   \<and> complete_goal 1000 c4_self_parent ''goal_1'' ''caught'' zero_clock = None"
proof -
  have a: "run 0 c4_self_calls planner_init = Some c4_self_parent" by code_simp
  have b: "lookup c4_self_parent ''goal_1'' = Some (snd (hd c4_self_goals))"
    by (simp add: lookup_def c4_self_parent_def c4_self_goals_def)
  have c: "parent_id (snd (hd c4_self_goals)) = Some ''goal_1''"
    "children_ids (snd (hd c4_self_goals)) = [''goal_1'']" "goal_id (snd (hd c4_self_goals)) = ''goal_1''"
    by (simp_all add: c4_self_goals_def)
  from complete_goal_self_parent[OF b c(1) _ c(2,3), of 1000 "''caught''" zero_clock]
  have "complete_goal 1000 c4_self_parent ''goal_1'' ''caught'' zero_clock = None" by simp
  with a b c show ?thesis by simp
qed



text \<open>Claim C1 as stated fails: once the prerequisite \<open>goal_1\<close> is completed and
  \<open>goal_2\<close> has become active, \<open>fail_goal\<close> puts \<open>goal_1\<close> back to pending; the next
  \<open>get_current_goal\<close> returns \<open>goal_2\<close>, whose prerequisite is pending.\<close>

theorem get_current_goal_stale_prerequisite:
  "run 0 c1_calls planner_init = Some c1_planner
   \<and> get_current_goal 0 c1_planner = Some (Some c1_goal, c1_planner)
   \<and> prerequisites c1_goal = [''goal_1'']
   \<and> map_option status (lookup c1_planner ''goal_1'') = Some PENDING"
  by code_simp

lemma prerequisites_met_iff:
  "prerequisites_met pl h \<longleftrightarrow> (\<forall>p\<in>set (prerequisites h). completed pl p)"
  by (auto simp: prerequisites_met_def completed_def list_all_iff split: option.splits)

lemma prerequisites_met_save [simp]: "prerequisites_met (save pl) = prerequisites_met pl"
  by (simp add: prerequisites_met_iff completed_def fun_eq_iff)

lemma lookup_entry: "lookup pl k = Some g \<Longrightarrow> (k, g) \<in> set (goals pl)"
  by (auto simp: lookup_def dest: map_of_SomeD)

lemma entry_lookup:
  "distinct (map fst (goals pl)) \<Longrightarrow> (k, g) \<in> set (goals pl) \<Longrightarrow> lookup pl k = Some g"
  by (simp add: lookup_def)

text \<open>Promoting a pending goal whose prerequisites are met leaves them met: it is not its
  own completed prerequisite.\<close>

lemma promoted_met:
  assumes "promoted pl k g0 g pl'"
  shows "prerequisites_met pl' g"
proof -
  from assms have g0: "lookup pl k = Some g0" "status g0 = PENDING" "prerequisites_met pl g0"
    and g: "g = g0\<lparr>status := ACTIVE\<rparr>"
    and pl': "pl' = save (pl\<lparr>goals := AList.update k g (goals pl)\<rparr>)"
    by (simp_all add: promoted_def)
  have "completed pl' p" if "p \<in> set (prerequisites g)" for p
  proof -
    from that g g0(3) have c: "completed pl p" by (simp add: prerequisites_met_iff)
    with g0(1,2) have "p \<noteq> k" by (auto simp: completed_def)
    with c show ?thesis by (simp add: pl' completed_def)
  qed
  then show ?thesis by (simp add: prerequisites_met_iff)
qed

lemma next_child_in_result:
  "next_child_in depth pl cids = Some (r, pl') \<Longrightarrow>
     (r = None \<and> pl' = pl)
     \<or> (\<exists>g. r = Some g \<and> (already_in_flight pl g pl' \<or> (\<exists>k g0. promoted pl k g0 g pl')))"
proof (induction depth pl cids arbitrary: r pl' rule: next_child_in.induct)
  case (1 depth pl)
  then show ?case by simp
next
  case (2 depth pl cid cids)
  show ?case
  proof (cases "lookup pl cid")
    case None
    with "2.prems" have "next_child_in depth pl cids = Some (r, pl')" by simp
    from "2.IH"(1)[OF None this] show ?thesis .
  next
    case (Some child)
    show ?thesis
    proof (cases "in_flight child")
      case True
      from lookup_entry[OF Some] have "child \<in> set (map snd (goals pl))" by force
      with True have here: "already_in_flight pl child pl" by (simp add: already_in_flight_def)
      show ?thesis
      proof (cases "children_ids child = []")
        case True
        with Some \<open>in_flight child\<close> "2.prems" have "r = Some child" "pl' = pl" by simp_all
        with here show ?thesis by simp
      next
        case False
        show ?thesis
        proof (cases depth)
          case 0
          with Some \<open>in_flight child\<close> False "2.prems" show ?thesis by simp
        next
          case (Suc d)
          from Suc Some \<open>in_flight child\<close> False "2.prems"
          obtain r2 pl2 where inner: "next_child_in d pl (children_ids child) = Some (r2, pl2)"
            and out: "r = (case r2 of None \<Rightarrow> Some child | Some deeper \<Rightarrow> Some deeper)" "pl' = pl2"
            by (auto split: option.splits)
          from "2.IH"(2)[OF Some \<open>in_flight child\<close> False Suc inner]
          show ?thesis
          proof
            assume "r2 = None \<and> pl2 = pl"
            with out here show ?thesis by simp
          next
            assume "\<exists>g. r2 = Some g \<and> (already_in_flight pl g pl2 \<or> (\<exists>k g0. promoted pl k g0 g pl2))"
            with out show ?thesis by auto
          qed
        qed
      qed
    next
      case False
      show ?thesis
      proof (cases "status child = PENDING \<and> prerequisites_met pl child")
        case True
        with Some False "2.prems"
        have out: "r = Some (child\<lparr>status := ACTIVE\<rparr>)"
          "pl' = save (pl\<lparr>goals := AList.update cid (child\<lparr>status := ACTIVE\<rparr>) (goals pl)\<rparr>)"
          by (simp_all add: Let_def)
        from True Some out have "promoted pl cid child (child\<lparr>status := ACTIVE\<rparr>) pl'"
          by (simp add: promoted_def)
        with out(1) show ?thesis by blast
      next
        case nopromote: False
        with Some False "2.prems" have "next_child_in depth pl cids = Some (r, pl')" by simp
        from "2.IH"(3)[OF Some False nopromote this] show ?thesis .
      qed
    qed
  qed
qed

lemma select_next_goal_result:
  assumes d: "distinct (map fst (goals pl))" and res: "select_next_goal pl = (r, pl')"
  shows "(r = None \<and> pl' = pl) \<or> (\<exists>g k g0. r = Some g \<and> promoted pl k g0 g pl')"
proof -
  define candidates where "candidates = filter (\<lambda>(k, g). status g = PENDING \<and> \<not> truthy (parent_id g)
                                  \<and> prerequisites_met pl g) (goals pl)"
  show ?thesis
  proof (cases "sort_key (\<lambda>(k, g). priority g) candidates")
    case Nil
    with res show ?thesis by (simp add: select_next_goal_def candidates_def[symmetric])
  next
    case (Cons e rest)
    obtain k best where e: "e = (k, best)" by (cases e)
    have "(k, best) \<in> set (sort_key (\<lambda>(k, g). priority g) candidates)" by (simp add: Cons e)
    then have "(k, best) \<in> set candidates" by simp
    then have mem: "(k, best) \<in> set (goals pl)" and pending: "status best = PENDING"
      and met: "prerequisites_met pl best"
      by (auto simp: candidates_def)
    from entry_lookup[OF d mem] have look: "lookup pl k = Some best" .
    from res Cons e have out: "r = Some (best\<lparr>status := ACTIVE\<rparr>)"
      "pl' = save (pl\<lparr>goals := AList.update k (best\<lparr>status := ACTIVE\<rparr>) (goals pl)\<rparr>)"
      by (simp_all add: select_next_goal_def candidates_def[symmetric] Let_def)
    from look pending met out have "promoted pl k best (best\<lparr>status := ACTIVE\<rparr>) pl'"
      by (simp add: promoted_def)
    with out(1) show ?thesis by blast
  qed
qed

lemma get_current_goal_result:
  assumes d: "distinct (map fst (goals pl))" and res: "get_current_goal depth pl = Some (Some g, pl')"
  shows "already_in_flight pl g pl' \<or> (\<exists>k g0. promoted pl k g0 g pl')"
proof (cases "find in_flight (map snd (goals pl))")
  case None
  with res have "select_next_goal pl = (Some g, pl')" by (simp add: get_current_goal_def)
  from select_next_goal_result[OF d this] show ?thesis by auto
next
  case (Some h)
  then have "h \<in> set (map snd (goals pl))" "in_flight h"
    by (auto simp: find_Some_iff)
  then have here: "already_in_flight pl h pl" by (simp add: already_in_flight_def)
  show ?thesis
  proof (cases "children_ids h = []")
    case True
    with Some res have "g = h" "pl' = pl" by (simp_all add: get_current_goal_def)
    with here show ?thesis by simp
  next
    case False
    with Some res obtain r2 pl2 where inner: "next_child_in depth pl (children_ids h) = Some (r2, pl2)"
      and out: "Some g = (case r2 of None \<Rightarrow> Some h | Some child \<Rightarrow> Some child)" "pl' = pl2"
      by (auto simp: get_current_goal_def get_next_child_def split: option.splits)
    from next_child_in_result[OF inner] show ?thesis
    proof
      assume "r2 = None \<and> pl2 = pl"
      with out here show ?thesis by simp
    next
      assume "\<exists>c. r2 = Some c \<and> (already_in_flight pl c pl2 \<or> (\<exists>k g0. promoted pl k g0 c pl2))"
      with out show ?thesis by auto
    qed
  qed
qed

text \<open>Claim C1, amended. On every goal tree (a dictionary: its keys are distinct), a goal
  that \<open>get_current_goal\<close> returns is of one of two kinds. Either it was in the tree
  already, active or in progress: it is returned with no check of its prerequisites, and
  the tree is left as it was. Or it was in the tree pending, with every prerequisite present
  and completed: it is made active by this call, nothing else in the tree changes, and
  every prerequisite of it is completed in the resulting tree too. So \<open>get_current_goal\<close>
  never makes a goal active that has a prerequisite whose status is not completed.\<close>

theorem get_current_goal_prerequisites:
  assumes "distinct (map fst (goals pl))" and "get_current_goal depth pl = Some (Some g, pl')"
  shows "(g \<in> set (map snd (goals pl)) \<and> (status g = ACTIVE \<or> status g = IN_PROGRESS) \<and> pl' = pl)
       \<or> (\<exists>k g0. lookup pl k = Some g0 \<and> status g0 = PENDING
             \<and> (\<forall>p\<in>set (prerequisites g0). map_option status (lookup pl p) = Some COMPLETED)
             \<and> g = g0\<lparr>status := ACTIVE\<rparr>
             \<and> pl' = save (pl\<lparr>goals := AList.update k g (goals pl)\<rparr>)
             \<and> (\<forall>p\<in>set (prerequisites g). map_option status (lookup pl' p) = Some COMPLETED))"
proof -
  from get_current_goal_result[OF assms] show ?thesis
  proof
    assume "already_in_flight pl g pl'"
    then show ?thesis by (simp add: already_in_flight_def in_flight_def)
  next
    assume "\<exists>k g0. promoted pl k g0 g pl'"
    then obtain k g0 where p: "promoted pl k g0 g pl'" by blast
    from promoted_met[OF p] have "\<forall>p\<in>set (prerequisites g). map_option status (lookup pl' p) = Some COMPLETED"
      by (simp add: prerequisites_met_iff completed_def)
    moreover from p have "lookup pl k = Some g0 \<and> status g0 = PENDING
             \<and> (\<forall>p\<in>set (prerequisites g0). map_option status (lookup pl p) = Some COMPLETED)
             \<and> g = g0\<lparr>status := ACTIVE\<rparr>
             \<and> pl' = save (pl\<lparr>goals := AList.update k g (goals pl)\<rparr>)"
      by (simp add: promoted_def prerequisites_met_iff completed_def)
    ultimately show ?thesis by blast
  qed
qed

theorem get_current_goal_prerequisites_witness:
  "run 0 c1_ready_calls planner_init = Some c1_ready
   \<and> distinct (map fst (goals c1_ready))
   \<and> get_current_goal 0 c1_ready = Some (Some c1_goal, c1_promoted)
   \<and> c1_goal \<notin> set (map snd (goals c1_ready))
   \<and> prerequisites c1_goal = [''goal_1'']
   \<and> map_option status (lookup c1_promoted ''goal_1'') = Some COMPLETED
   \<and> distinct (map fst (goals c1_planner))
   \<and> get_current_goal 0 c1_planner = Some (Some c1_goal, c1_planner)
   \<and> c1_goal \<in> set (map snd (goals c1_planner)) \<and> status c1_goal = ACTIVE"
proof -
  have h0: "run 0 c1_ready_calls planner_init = Some c1_ready" by code_simp
  have h1: "distinct (map fst (goals c1_ready))" by code_simp
  have h2: "get_current_goal 0 c1_ready = Some (Some c1_goal, c1_promoted)" by code_simp
  have h3: "c1_goal \<notin> set (map snd (goals c1_ready))" by code_simp
  have h4: "prerequisites c1_goal = [''goal_1'']" by (simp add: c1_goal_def)
  have k1: "distinct (map fst (goals c1_planner))" by code_simp
  have k2: "get_current_goal 0 c1_planner = Some (Some c1_goal, c1_planner)" by code_simp
  from get_current_goal_prerequisites[OF h1 h2] h3 h4
  have a: "map_option status (lookup c1_promoted ''goal_1'') = Some COMPLETED" by auto
  have k4: "map_option status (lookup c1_planner ''goal_1'') = Some PENDING" by code_simp
  from get_current_goal_prerequisites[OF k1 k2] h4 k4
  have b: "c1_goal \<in> set (map snd (goals c1_planner)) \<and> status c1_goal = ACTIVE"
    by (auto simp: c1_goal_def)
  from h0 h1 h2 h3 h4 a k1 k2 b show ?thesis by simp
qed

end
